theory Spec2Isabelle
  imports Main "HOL-Library.AList" "HOL-Library.Sublist"
begin

section \<open>Uploading model prediction files to Figshare\<close>

text \<open>
  A shallow embedding of \<^verbatim>\<open>scripts/upload_model_preds_to_figshare.py\<close>.

  \<^item> A YAML document loaded by \<^verbatim>\<open>round_trip_yaml\<close> is a value of type \<open>yaml\<close>; a
    mapping is an association list in insertion order, as a Python \<^verbatim>\<open>dict\<close> is.
  \<^item> A Python \<^verbatim>\<open>dict[str, str]\<close> is an association list; \<^verbatim>\<open>d[k] = v\<close> is
    \<open>AList.update k v d\<close>, which keeps the position of a key that is already
    there and appends a new key, as Python does.
  \<^item> The module \<^verbatim>\<open>matbench_discovery.remote.figshare\<close> is not part of the script: its
    functions and constants are the fields of a record \<open>'r figshare\<close>, over any type
    \<open>'r\<close> of remote states. A function that only queries takes the remote state, a
    function that changes the remote returns the new one, and each may raise.
  \<^item> The local variables of the script that the loops change, the file system and the
    remote are the fields of one record \<open>'r state\<close>, passed through and returned.
  \<^item> An exception is a value: every step returns the state it reached and
    \<open>Some e\<close> when it raised \<open>e\<close>.

  What the model leaves out: a YAML document is a tree (no anchors and aliases, so no
  two key-paths reach the same mapping object); the keys of a mapping are strings; the
  prediction files are not the metadata files, so the content hash of a local file is
  a function of its path; a \<^verbatim>\<open>Model\<close> is printed by its name; the progress bar of
  \<^verbatim>\<open>tqdm\<close> and the parsing of the command line are not modelled.
\<close>

subsection \<open>Values\<close>

datatype yaml =
    YStr string
  | YNum int
  | YNull
  | YSeq "yaml list"
  | YDict "(string \<times> yaml) list"

datatype error =
    KeyError string
  | TypeError
  | AttributeError
  | RemoteError string

text \<open>\<^verbatim>\<open>key.endswith(suffix)\<close>\<close>

definition endswith :: "string \<Rightarrow> string \<Rightarrow> bool" where
  "endswith s suf = (length suf \<le> length s \<and> drop (length s - length suf) s = suf)"

text \<open>\<^verbatim>\<open>s.removeprefix(p)\<close>\<close>

definition removeprefix :: "string \<Rightarrow> string \<Rightarrow> string" where
  "removeprefix s p = (if take (length p) s = p then drop (length p) s else s)"

text \<open>\<^verbatim>\<open>s.split(".")\<close>: never empty; the last element is what follows the last dot.\<close>

fun split_on :: "char \<Rightarrow> string \<Rightarrow> string list" where
  "split_on c [] = [[]]"
| "split_on c (x # xs) =
     (if x = c then [] # split_on c xs
      else (case split_on c xs of
              [] \<Rightarrow> [[x]]
            | w # ws \<Rightarrow> (x # w) # ws))"

text \<open>The decimal digits of a file or article id, as an f-string prints it.\<close>

definition digit_char :: "nat \<Rightarrow> char" where
  "digit_char d = ''0123456789'' ! d"

function str_nat :: "nat \<Rightarrow> string" where
  "str_nat n = (if n < 10 then [digit_char n] else str_nat (n div 10) @ [digit_char (n mod 10)])"
  by pat_completeness auto
termination
  by (relation "measure id") auto

declare str_nat.simps [simp del]

text \<open>\<^verbatim>\<open>d |= other\<close> on dictionaries: the items of \<open>other\<close> are stored in their order.\<close>

definition dict_ior :: "('k \<times> 'v) list \<Rightarrow> ('k \<times> 'v) list \<Rightarrow> ('k \<times> 'v) list" where
  "dict_ior d other = fold (\<lambda>(k, v). AList.update k v) other d"

subsection \<open>Filtering by file type and walking the metadata tree\<close>

definition should_process_file :: "string \<Rightarrow> string \<Rightarrow> bool" where
  "should_process_file key file_type =
     (file_type = ''all'' \<or> endswith key (file_type @ ''_file''))"

text \<open>\<^verbatim>\<open>full_key = f"{prefix}.{key}" if prefix else key\<close>\<close>

definition full_key_of :: "string \<Rightarrow> string \<Rightarrow> string" where
  "full_key_of pre key = (if pre \<noteq> [] then pre @ ''.'' @ key else key)"

text \<open>
  The loop of \<^verbatim>\<open>find_file_keys\<close> over \<^verbatim>\<open>data.items()\<close>, with the dictionary
  \<^verbatim>\<open>result\<close> it fills. The three equations for an item are the source's
  \<^verbatim>\<open>isinstance(value, dict)\<close>, \<^verbatim>\<open>isinstance(value, str) and ...\<close>, and neither.
\<close>

fun find_file_keys_loop ::
  "string \<Rightarrow> string \<Rightarrow> (string \<times> yaml) list \<Rightarrow> (string \<times> string) list
     \<Rightarrow> (string \<times> string) list"
where
  "find_file_keys_loop file_type pre [] result = result"
| "find_file_keys_loop file_type pre ((key, YDict d) # rest) result =
     find_file_keys_loop file_type pre rest
       (dict_ior result (find_file_keys_loop file_type (full_key_of pre key) d []))"
| "find_file_keys_loop file_type pre ((key, YStr s) # rest) result =
     (if endswith key ''_file'' \<and> should_process_file key file_type
      then find_file_keys_loop file_type pre rest (AList.update (full_key_of pre key) s result)
      else find_file_keys_loop file_type pre rest result)"
| "find_file_keys_loop file_type pre ((key, _) # rest) result =
     find_file_keys_loop file_type pre rest result"

definition find_file_keys ::
  "string \<Rightarrow> (string \<times> yaml) list \<Rightarrow> string \<Rightarrow> (string \<times> string) list" where
  "find_file_keys file_type data pre = find_file_keys_loop file_type pre data []"

text \<open>
  Two views of a tree that the statements below use: the pairs the walk stores, in
  the order it stores them and before any key is overwritten, and every entry of the
  tree that is not a mapping, with its key-path and its own key.
\<close>

fun emitted :: "string \<Rightarrow> string \<Rightarrow> (string \<times> yaml) list \<Rightarrow> (string \<times> string) list" where
  "emitted ft pre [] = []"
| "emitted ft pre ((key, YDict d) # rest) =
     emitted ft (full_key_of pre key) d @ emitted ft pre rest"
| "emitted ft pre ((key, YStr s) # rest) =
     (if endswith key ''_file'' \<and> should_process_file key ft
      then [(full_key_of pre key, s)] else []) @ emitted ft pre rest"
| "emitted ft pre ((key, _) # rest) = emitted ft pre rest"

fun leaf_entries :: "string \<Rightarrow> (string \<times> yaml) list \<Rightarrow> (string \<times> string \<times> yaml) list" where
  "leaf_entries pre [] = []"
| "leaf_entries pre ((key, YDict d) # rest) =
     leaf_entries (full_key_of pre key) d @ leaf_entries pre rest"
| "leaf_entries pre ((key, v) # rest) = (full_key_of pre key, key, v) # leaf_entries pre rest"

subsection \<open>The collaborators: models, the Figshare module, the configuration\<close>

text \<open>A member of the enumeration \<^verbatim>\<open>Model\<close>: its name and the path of its metadata file.\<close>

record model =
  name :: string
  yaml_path :: string

record article_metadata =
  title :: string
  description :: string
  defined_type :: string
  tags :: "string list"
  categories :: "nat list"

text \<open>
  The module \<^verbatim>\<open>figshare\<close>. \<open>ARTICLE_IDS\<close> maps a key to an article id or to
  \<^verbatim>\<open>None\<close>. \<open>get_existing_files\<close> returns the file names of an article with their
  ids; \<open>file_exists_with_same_hash\<close> returns the pair \<^verbatim>\<open>(exists, file_id)\<close>;
  \<open>upload_file_if_needed\<close> returns \<^verbatim>\<open>(file_id, was_uploaded)\<close> and the remote state
  it leaves. \<open>get_file_hash_and_size\<close> reads a local file.
\<close>

record 'r figshare =
  ARTICLE_IDS :: "(string \<times> nat option) list"
  ARTICLE_URL_PREFIX :: string
  DOWNLOAD_URL_PREFIX :: string
  CATEGORIES :: "nat list"
  article_exists :: "'r \<Rightarrow> nat \<Rightarrow> error + bool"
  create_article :: "'r \<Rightarrow> article_metadata \<Rightarrow> error + (nat \<times> 'r)"
  get_existing_files :: "'r \<Rightarrow> nat \<Rightarrow> error + (string \<times> nat) list"
  get_file_hash_and_size :: "string \<Rightarrow> error + (string \<times> nat)"
  file_exists_with_same_hash :: "'r \<Rightarrow> nat \<Rightarrow> string \<Rightarrow> string \<Rightarrow> error + (bool \<times> nat option)"
  upload_file_if_needed :: "'r \<Rightarrow> nat \<Rightarrow> string \<Rightarrow> string \<Rightarrow> bool \<Rightarrow> error + ((nat \<times> bool) \<times> 'r)"

text \<open>
  What the script loads when it is imported: \<^verbatim>\<open>ROOT\<close>, the task catalogue
  \<^verbatim>\<open>MODELING_TASKS\<close> (for each task its label and its description) and the keywords of
  \<^verbatim>\<open>pyproject.toml\<close>; and the interpreter that runs it, of which one thing matters:
  from Python 3.12 on a comprehension is compiled into the frame of the function
  around it (PEP 709), before that it has a frame of its own.
\<close>

record config =
  ROOT :: string
  MODELING_TASKS :: "(string \<times> string \<times> string) list"
  pyproject_keywords :: "string list"
  comprehensions_inlined :: bool

text \<open>The calls into the Figshare module, in the order they are made.\<close>

datatype call =
    ArticleExists nat
  | CreateArticle article_metadata
  | GetExistingFiles nat
  | GetFileHashAndSize string
  | FileExistsWithSameHash nat string string
  | UploadFileIfNeeded nat string string bool

text \<open>The lines the script prints.\<close>

datatype msg =
    FoundExistingArticle string nat
  | ArticleNotFound nat string
  | WouldCreateArticle string
  | CreatedArticle string nat
  | NowUpdatingArticle string
  | DryRunNotice
  | FoundExistingFiles nat
  | ExistingFileLine nat string nat
  | MissingModelYaml string
  | TaskFileNotFound string string string
  | NewlyAddedCount nat
  | UpdatedCount nat
  | SkippedCount nat
  | NewlyAddedHeader
  | UpdatedHeader
  | SkippedHeader
  | FileUrlLine nat string string
  | NoFilesAddedOrUpdated
  | UpdatingModels nat "string list"
  | UpdatingTasks nat "string list"
  | FileTypeFilter string
  | ForceReuploadNotice

text \<open>
  The state: the remote, the local file system (which paths are files, and the YAML
  document each metadata file holds), what was written, called and printed, and the
  local variables \<^verbatim>\<open>metric_data\<close>, \<^verbatim>\<open>skipped_files\<close>, \<^verbatim>\<open>updated_files\<close> and
  \<^verbatim>\<open>new_files\<close>. \<open>writes\<close> lists the metadata files opened for writing.
\<close>

record 'r state =
  remote :: 'r
  isfile :: "string \<Rightarrow> bool"
  yaml_docs :: "string \<Rightarrow> yaml"
  writes :: "string list"
  calls :: "call list"
  stdout :: "msg list"
  metric_data :: "(string \<times> yaml) list"
  skipped_files :: "(string \<times> string) list"
  updated_files :: "(string \<times> string) list"
  new_files :: "(string \<times> string) list"

definition called :: "call \<Rightarrow> 'r state \<Rightarrow> 'r state" where
  "called c st = st\<lparr>calls := calls st @ [c]\<rparr>"

definition print :: "msg \<Rightarrow> 'r state \<Rightarrow> 'r state" where
  "print m st = st\<lparr>stdout := stdout st @ [m]\<rparr>"

text \<open>A \<^verbatim>\<open>for\<close> loop whose body may raise: the first exception ends it.\<close>

fun for_each :: "('a \<Rightarrow> 's \<Rightarrow> 's \<times> error option) \<Rightarrow> 'a list \<Rightarrow> 's \<Rightarrow> 's \<times> error option" where
  "for_each body [] st = (st, None)"
| "for_each body (x # xs) st =
     (case body x st of
        (st', None) \<Rightarrow> for_each body xs st'
      | (st', Some e) \<Rightarrow> (st', Some e))"

subsection \<open>\<^verbatim>\<open>get_article_metadata\<close>\<close>

definition lower_char :: "char \<Rightarrow> char" where
  "lower_char c =
     (if 65 \<le> (of_char c :: nat) \<and> (of_char c :: nat) \<le> 90
      then char_of ((of_char c :: nat) + 32) else c)"

text \<open>\<^verbatim>\<open>str.lower\<close>, on ASCII letters.\<close>

definition lower :: "string \<Rightarrow> string" where
  "lower s = map lower_char s"

definition newline :: string where
  "newline = [CHR 0x0A]"

text \<open>
  The description is a multi-line f-string that is stripped: the text starts at
  \<^verbatim>\<open>This\<close> and ends at the full stop, and the lines between keep their indentation
  of eight blanks.
\<close>

definition get_article_metadata :: "'r figshare \<Rightarrow> config \<Rightarrow> string \<Rightarrow> error + article_metadata" where
  "get_article_metadata fg cfg task =
     (case map_of (MODELING_TASKS cfg) task of
        None \<Rightarrow> Inl (KeyError task)
      | Some (task_label, task_description) \<Rightarrow>
          Inr \<lparr> title = ''Matbench Discovery - Model Predictions for '' @ task_label,
                description =
                  ''This dataset contains model predictions from various models evaluated on the''
                  @ newline
                  @ ''        Matbench Discovery benchmark for the '' @ lower task_label @ '' task.''
                  @ newline @ newline
                  @ ''        Task description: '' @ task_description
                  @ newline @ newline
                  @ ''        For more information about the benchmark and models, visit:''
                  @ newline
                  @ ''        https://github.com/janosh/matbench-discovery.'',
                defined_type = ''dataset'',
                tags = pyproject_keywords cfg @ [''task-'' @ task],
                categories = CATEGORIES fg \<rparr>)"

subsection \<open>Writing a locator into the metadata tree\<close>

text \<open>
  \<^verbatim>\<open>target = metric_data; for part in parts: target = target[part]\<close> and then
  \<^verbatim>\<open>target[last] = value\<close>. The source changes the mapping it reaches in place; here
  the mappings on the way are rebuilt around the changed one. A part that is not a key
  raises \<^verbatim>\<open>KeyError\<close>; indexing or assigning into a value that is not a mapping raises
  \<^verbatim>\<open>TypeError\<close>.
\<close>

fun set_at ::
  "string list \<Rightarrow> string \<Rightarrow> yaml \<Rightarrow> (string \<times> yaml) list \<Rightarrow> error + (string \<times> yaml) list" where
  "set_at [] last_key v d = Inr (AList.update last_key v d)"
| "set_at (part # parts) last_key v d =
     (case map_of d part of
        None \<Rightarrow> Inl (KeyError part)
      | Some (YDict d') \<Rightarrow>
          (case set_at parts last_key v d' of
             Inl e \<Rightarrow> Inl e
           | Inr d'' \<Rightarrow> Inr (AList.update part (YDict d'') d))
      | Some _ \<Rightarrow> Inl TypeError)"

definition download_url :: "'r figshare \<Rightarrow> nat \<Rightarrow> string" where
  "download_url fg file_id = DOWNLOAD_URL_PREFIX fg @ ''/'' @ str_nat file_id"

text \<open>
  The branch taken when the remote has the file with the same hash (lines 196 to 208):
  the file is recorded as skipped, and the locator is written if \<^verbatim>\<open>url_key\<close> is not a
  key of \<^verbatim>\<open>metric_data\<close>.
\<close>

definition skip_existing ::
  "'r figshare \<Rightarrow> string \<Rightarrow> string \<Rightarrow> nat \<Rightarrow> 'r state \<Rightarrow> 'r state \<times> error option" where
  "skip_existing fg key_path filename file_id st =
     (let file_url = download_url fg file_id;
          st1 = st\<lparr>skipped_files := AList.update filename file_url (skipped_files st)\<rparr>;
          url_key = key_path @ ''_url''
      in if map_of (metric_data st1) url_key = None
         then (let segs = split_on CHR ''.'' url_key in
               case set_at (butlast segs) (last segs) (YStr file_url) (metric_data st1) of
                 Inl e \<Rightarrow> (st1, Some e)
               | Inr md \<Rightarrow> (st1\<lparr>metric_data := md\<rparr>, None))
         else (st1, None))"

text \<open>The upload (lines 210 to 230); nothing happens in a dry run.\<close>

definition upload_file ::
  "'r figshare \<Rightarrow> bool \<Rightarrow> bool \<Rightarrow> nat \<Rightarrow> (string \<times> nat) list \<Rightarrow> string \<Rightarrow> string \<Rightarrow> string
     \<Rightarrow> 'r state \<Rightarrow> 'r state \<times> error option" where
  "upload_file fg dry_run force_reupload article_id existing_files key_path file_path filename st =
     (if \<not> dry_run then
        (let st1 = called (UploadFileIfNeeded article_id file_path filename force_reupload) st in
         case upload_file_if_needed fg (remote st) article_id file_path filename force_reupload of
           Inl e \<Rightarrow> (st1, Some e)
         | Inr ((file_id, was_uploaded), r) \<Rightarrow>
             (let file_url = download_url fg file_id;
                  st2 = st1\<lparr>remote := r\<rparr>;
                  st3 = (if map_of existing_files filename \<noteq> None
                         then st2\<lparr>updated_files := AList.update filename file_url (updated_files st2)\<rparr>
                         else st2\<lparr>new_files := AList.update filename file_url (new_files st2)\<rparr>);
                  segs = split_on CHR ''.'' key_path
              in case set_at (butlast segs) (last segs @ ''_url'') (YStr file_url) (metric_data st3) of
                   Inl e \<Rightarrow> (st3, Some e)
                 | Inr md \<Rightarrow> (st3\<lparr>metric_data := md\<rparr>, None)))
      else (st, None))"

text \<open>
  The body of the loop over the file references of one model (lines 177 to 230), for
  the pair \<^verbatim>\<open>(key_path, rel_file_path)\<close>.
\<close>

definition process_file ::
  "'r figshare \<Rightarrow> config \<Rightarrow> string \<Rightarrow> model \<Rightarrow> bool \<Rightarrow> bool \<Rightarrow> nat \<Rightarrow> (string \<times> nat) list
     \<Rightarrow> string \<times> string \<Rightarrow> 'r state \<Rightarrow> 'r state \<times> error option" where
  "process_file fg cfg task m dry_run force_reupload article_id existing_files kv st =
     (let key_path = fst kv;
          rel_file_path = snd kv;
          file_path = ROOT cfg @ ''/'' @ rel_file_path
      in if \<not> isfile st file_path
         then (print (TaskFileNotFound task (name m) file_path) st, None)
         else
           (let filename = removeprefix file_path (ROOT cfg @ ''/'') in
            if \<not> force_reupload \<and> \<not> dry_run then
              (let st1 = called (GetFileHashAndSize file_path) st in
               case get_file_hash_and_size fg file_path of
                 Inl e \<Rightarrow> (st1, Some e)
               | Inr (file_hash, file_size) \<Rightarrow>
                   (let st2 = called (FileExistsWithSameHash article_id filename file_hash) st1 in
                    case file_exists_with_same_hash fg (remote st) article_id filename file_hash of
                      Inl e \<Rightarrow> (st2, Some e)
                    | Inr (True, Some file_id) \<Rightarrow> skip_existing fg key_path filename file_id st2
                    | Inr _ \<Rightarrow>
                        upload_file fg dry_run force_reupload article_id existing_files
                          key_path file_path filename st2))
            else upload_file fg dry_run force_reupload article_id existing_files
                   key_path file_path filename st))"

subsection \<open>One model\<close>

text \<open>
  \<^verbatim>\<open>model_data.get("metrics", {}).get(task, {})\<close>: a document or a \<^verbatim>\<open>metrics\<close> entry
  that is not a mapping has no method \<^verbatim>\<open>get\<close>.
\<close>

definition get_metric_data :: "yaml \<Rightarrow> string \<Rightarrow> error + yaml" where
  "get_metric_data model_data task =
     (case model_data of
        YDict md \<Rightarrow>
          (case (case map_of md ''metrics'' of None \<Rightarrow> YDict [] | Some metrics \<Rightarrow> metrics) of
             YDict ms \<Rightarrow> Inr (case map_of ms task of None \<Rightarrow> YDict [] | Some metric \<Rightarrow> metric)
           | _ \<Rightarrow> Inl AttributeError)
      | _ \<Rightarrow> Inl AttributeError)"

text \<open>
  The document that \<^verbatim>\<open>round_trip_yaml.dump(model_data, file)\<close> writes:
  \<^verbatim>\<open>metric_data\<close> is the mapping inside \<^verbatim>\<open>model_data\<close> when the document has one
  for the task, so its changes are in the document; otherwise it is a fresh \<^verbatim>\<open>{}\<close>
  and the document is as it was loaded.
\<close>

definition dumped_model_data :: "yaml \<Rightarrow> string \<Rightarrow> (string \<times> yaml) list \<Rightarrow> yaml" where
  "dumped_model_data model_data task md' =
     (case model_data of
        YDict md \<Rightarrow>
          (case map_of md ''metrics'' of
             Some (YDict ms) \<Rightarrow>
               (case map_of ms task of
                  Some (YDict old) \<Rightarrow>
                    YDict (AList.update ''metrics'' (YDict (AList.update task (YDict md') ms)) md)
                | _ \<Rightarrow> model_data)
           | _ \<Rightarrow> model_data)
      | _ \<Rightarrow> model_data)"

text \<open>The body of the loop over the models (lines 147 to 235).\<close>

definition process_model ::
  "'r figshare \<Rightarrow> config \<Rightarrow> string \<Rightarrow> bool \<Rightarrow> string \<Rightarrow> bool \<Rightarrow> nat \<Rightarrow> (string \<times> nat) list
     \<Rightarrow> model \<Rightarrow> 'r state \<Rightarrow> 'r state \<times> error option" where
  "process_model fg cfg task dry_run file_type force_reupload article_id existing_files m st =
     (if \<not> isfile st (yaml_path m)
      then (print (MissingModelYaml (yaml_path m)) st, None)
      else
        (let model_data = yaml_docs st (yaml_path m) in
         case get_metric_data model_data task of
           Inl e \<Rightarrow> (st, Some e)
         | Inr (YDict md) \<Rightarrow>
             (case for_each
                     (process_file fg cfg task m dry_run force_reupload article_id existing_files)
                     (find_file_keys file_type md [])
                     (st\<lparr>metric_data := md\<rparr>) of
                (st1, Some e) \<Rightarrow> (st1, Some e)
              | (st1, None) \<Rightarrow>
                  if \<not> dry_run
                  then (st1\<lparr>yaml_docs := (yaml_docs st1)
                               (yaml_path m := dumped_model_data model_data task (metric_data st1)),
                             writes := writes st1 @ [yaml_path m]\<rparr>, None)
                  else (st1, None))
         | Inr _ \<Rightarrow> (st, None)))"

subsection \<open>\<^verbatim>\<open>update_one_modeling_task_article\<close>\<close>

text \<open>Lines 108 to 128: the article of the task, created when there is none.\<close>

definition resolve_article ::
  "'r figshare \<Rightarrow> config \<Rightarrow> string \<Rightarrow> bool \<Rightarrow> 'r state \<Rightarrow> 'r state \<times> (error + nat)" where
  "resolve_article fg cfg task dry_run st =
     (case map_of (ARTICLE_IDS fg) (''model_preds_'' @ task) of
        None \<Rightarrow> (st, Inl (KeyError (''model_preds_'' @ task)))
      | Some registered \<Rightarrow>
          (case (case registered of
                   None \<Rightarrow> (st, Inr None)
                 | Some article_id \<Rightarrow>
                     (case article_exists fg (remote st) article_id of
                        Inl e \<Rightarrow> (called (ArticleExists article_id) st, Inl e)
                      | Inr True \<Rightarrow>
                          (print (FoundExistingArticle task article_id)
                             (called (ArticleExists article_id) st), Inr (Some article_id))
                      | Inr False \<Rightarrow>
                          (print (ArticleNotFound article_id task)
                             (called (ArticleExists article_id) st), Inr None))) of
             (st1, Inl e) \<Rightarrow> (st1, Inl e)
           | (st1, Inr (Some article_id)) \<Rightarrow> (st1, Inr article_id)
           | (st1, Inr None) \<Rightarrow>
               if dry_run then (print (WouldCreateArticle task) st1, Inr 0)
               else
                 (case get_article_metadata fg cfg task of
                    Inl e \<Rightarrow> (st1, Inl e)
                  | Inr metadata \<Rightarrow>
                      (case create_article fg (remote st1) metadata of
                         Inl e \<Rightarrow> (called (CreateArticle metadata) st1, Inl e)
                       | Inr (article_id, r) \<Rightarrow>
                           (print (CreatedArticle task article_id)
                              ((called (CreateArticle metadata) st1)\<lparr>remote := r\<rparr>),
                            Inr article_id)))))"

text \<open>Lines 237 to 257: the summary.\<close>

definition file_lines :: "(string \<times> string) list \<Rightarrow> msg list" where
  "file_lines files =
     map (\<lambda>(idx, (filename, url)). FileUrlLine idx filename url)
       (zip [1 ..< Suc (length files)] files)"

definition print_summary :: "'r state \<Rightarrow> 'r state" where
  "print_summary st =
     st\<lparr>stdout := stdout st
         @ [NewlyAddedCount (length (new_files st)),
            UpdatedCount (length (updated_files st)),
            SkippedCount (length (skipped_files st))]
         @ (if new_files st \<noteq> [] \<or> updated_files st \<noteq> [] \<or> skipped_files st \<noteq> []
            then (if new_files st \<noteq> [] then NewlyAddedHeader # file_lines (new_files st) else [])
               @ (if updated_files st \<noteq> [] then UpdatedHeader # file_lines (updated_files st) else [])
               @ (if skipped_files st \<noteq> [] then SkippedHeader # file_lines (skipped_files st) else [])
            else [NoFilesAddedOrUpdated])\<rparr>"

text \<open>
  The whole function. The state it returns holds the three dictionaries of the run
  in \<open>skipped_files\<close>, \<open>updated_files\<close> and \<open>new_files\<close>.
\<close>

definition update_one_modeling_task_article ::
  "'r figshare \<Rightarrow> config \<Rightarrow> string \<Rightarrow> model list \<Rightarrow> bool \<Rightarrow> string \<Rightarrow> bool
     \<Rightarrow> 'r state \<Rightarrow> 'r state \<times> error option" where
  "update_one_modeling_task_article fg cfg task models dry_run file_type force_reupload st =
     (case resolve_article fg cfg task dry_run st of
        (st1, Inl e) \<Rightarrow> (st1, Some e)
      | (st1, Inr article_id) \<Rightarrow>
          (let st2 = print (NowUpdatingArticle (ARTICLE_URL_PREFIX fg @ ''/'' @ str_nat article_id)) st1;
               st3 = (if dry_run then print DryRunNotice st2 else st2);
               st4 = called (GetExistingFiles article_id) st3
           in case get_existing_files fg (remote st4) article_id of
                Inl e \<Rightarrow> (st4, Some e)
              | Inr existing_files \<Rightarrow>
                  (let st5 = st4\<lparr>stdout := stdout st4
                                  @ FoundExistingFiles (length existing_files)
                                  # map (\<lambda>(idx, (file_name, file_id)). ExistingFileLine idx file_name file_id)
                                      (zip [1 ..< Suc (length existing_files)] existing_files)\<rparr>;
                       st6 = st5\<lparr>skipped_files := [], updated_files := [], new_files := []\<rparr>
                   in case for_each
                             (process_model fg cfg task dry_run file_type force_reupload
                                article_id existing_files)
                             models st6 of
                        (st7, Some e) \<Rightarrow> (st7, Some e)
                      | (st7, None) \<Rightarrow> (print_summary st7, None))))"

subsection \<open>\<^verbatim>\<open>main\<close>\<close>

text \<open>The parsed command line.\<close>

record parsed_args =
  arg_models :: "model list"
  arg_tasks :: "string list"
  arg_dry_run :: bool
  arg_file_type :: string
  arg_force_reupload :: bool

datatype pyval =
    PNone
  | PStr string
  | PStrs "string list"
  | PModels "model list"
  | PBool bool
  | PArgs parsed_args
  | PError error
  | PIterator

text \<open>
  What \<^verbatim>\<open>locals()\<close> gives when a task has raised. The call stands inside the
  dictionary comprehension, at the iteration for \<^verbatim>\<open>key\<close>. Where comprehensions are
  inlined the frame is that of \<^verbatim>\<open>main\<close>: its variables assigned so far (\<^verbatim>\<open>state\<close> is
  not yet) and the iteration variable. Otherwise the frame is the comprehension's own:
  the iterator it was given, under the name \<^verbatim>\<open>.0\<close>, and the iteration variable.
\<close>

definition main_locals ::
  "config \<Rightarrow> parsed_args \<Rightarrow> string \<Rightarrow> error \<Rightarrow> string \<Rightarrow> (string \<times> pyval) list" where
  "main_locals cfg parsed task exc key =
     (if comprehensions_inlined cfg
      then [(''args'', PNone),
            (''parsed_args'', PArgs parsed),
            (''models_to_update'', PModels (arg_models parsed)),
            (''tasks_to_update'', PStrs (arg_tasks parsed)),
            (''dry_run'', PBool (arg_dry_run parsed)),
            (''task'', PStr task),
            (''exc'', PError exc),
            (''key'', PStr key)]
      else [(''.0'', PIterator), (''key'', PStr key)])"

text \<open>\<^verbatim>\<open>locals().get(key)\<close>\<close>

definition locals_get :: "(string \<times> pyval) list \<Rightarrow> string \<Rightarrow> pyval" where
  "locals_get vars key = (case map_of vars key of None \<Rightarrow> PNone | Some v \<Rightarrow> v)"

definition failure_state ::
  "config \<Rightarrow> parsed_args \<Rightarrow> string \<Rightarrow> error \<Rightarrow> (string \<times> pyval) list" where
  "failure_state cfg parsed task exc =
     map (\<lambda>key. (key, locals_get (main_locals cfg parsed task exc key) key))
       [''task'', ''model_name'', ''models_to_update'', ''tasks_to_update'']"

text \<open>
  What \<^verbatim>\<open>main\<close> does at its end: it returns an exit code, or the exception of a task
  leaves it with the note \<^verbatim>\<open>Upload failed with state=...\<close> added.
\<close>

datatype outcome =
    Returned int
  | Raised error "(string \<times> pyval) list"

fun main_tasks ::
  "'r figshare \<Rightarrow> config \<Rightarrow> parsed_args \<Rightarrow> string list \<Rightarrow> 'r state \<Rightarrow> 'r state \<times> outcome" where
  "main_tasks fg cfg parsed [] st = (st, Returned 0)"
| "main_tasks fg cfg parsed (task # tasks_left) st =
     (case update_one_modeling_task_article fg cfg task (arg_models parsed)
             (arg_dry_run parsed) (arg_file_type parsed) (arg_force_reupload parsed) st of
        (st1, Some exc) \<Rightarrow> (st1, Raised exc (failure_state cfg parsed task exc))
      | (st1, None) \<Rightarrow> main_tasks fg cfg parsed tasks_left st1)"

definition main :: "'r figshare \<Rightarrow> config \<Rightarrow> parsed_args \<Rightarrow> 'r state \<Rightarrow> 'r state \<times> outcome" where
  "main fg cfg parsed st =
     (let st1 = (if arg_dry_run parsed then print DryRunNotice st else st);
          st2 = print (UpdatingModels (length (arg_models parsed)) (map name (arg_models parsed))) st1;
          st3 = print (UpdatingTasks (length (arg_tasks parsed)) (arg_tasks parsed)) st2;
          st4 = print (FileTypeFilter (arg_file_type parsed)) st3;
          st5 = (if arg_force_reupload parsed then print ForceReuploadNotice st4 else st4)
      in main_tasks fg cfg parsed (arg_tasks parsed) st5)"

subsection \<open>The remote repository of the specification\<close>

text \<open>
  Modelled from the spec: the module \<^verbatim>\<open>matbench_discovery.remote.figshare\<close> is missing
  from the sources. A remote state holds the collections (articles) by id, each a
  mapping from a file name to the id and the content hash of the file of that name,
  and the next id the remote hands out.
\<close>

record remote_state =
  articles :: "(nat \<times> (string \<times> nat \<times> string) list) list"
  next_id :: nat

text \<open>Modelled from the spec: \<^verbatim>\<open>collection_exists(id) -> bool\<close>.\<close>

definition spec_article_exists :: "remote_state \<Rightarrow> nat \<Rightarrow> error + bool" where
  "spec_article_exists r article_id = Inr (map_of (articles r) article_id \<noteq> None)"

text \<open>
  Modelled from the spec: \<^verbatim>\<open>create_collection(metadata) -> id\<close>; the new collection has
  no file.
\<close>

definition spec_create_article :: "remote_state \<Rightarrow> article_metadata \<Rightarrow> error + (nat \<times> remote_state)" where
  "spec_create_article r metadata =
     Inr (next_id r, r\<lparr>articles := AList.update (next_id r) [] (articles r),
                        next_id := Suc (next_id r)\<rparr>)"

text \<open>
  Modelled from the spec: \<^verbatim>\<open>list_files(collection-id) -> mapping<name, {id, ...}>\<close>; a
  request for a collection that does not exist fails, and the failure propagates.
\<close>

definition spec_get_existing_files :: "remote_state \<Rightarrow> nat \<Rightarrow> error + (string \<times> nat) list" where
  "spec_get_existing_files r article_id =
     (case map_of (articles r) article_id of
        None \<Rightarrow> Inl (RemoteError ''no such article'')
      | Some files \<Rightarrow> Inr (map (\<lambda>(file_name, file_id, file_hash). (file_name, file_id)) files))"

text \<open>
  Modelled from the spec: \<^verbatim>\<open>file_matches(collection-id, name, hash) -> (bool, id | none)\<close>,
  a point query: a match is a file of that name whose content hash is the given one.
\<close>

definition spec_file_exists_with_same_hash ::
  "remote_state \<Rightarrow> nat \<Rightarrow> string \<Rightarrow> string \<Rightarrow> error + (bool \<times> nat option)" where
  "spec_file_exists_with_same_hash r article_id file_name file_hash =
     (case map_of (articles r) article_id of
        None \<Rightarrow> Inl (RemoteError ''no such article'')
      | Some files \<Rightarrow>
          (case map_of files file_name of
             None \<Rightarrow> Inr (False, None)
           | Some (file_id, remote_hash) \<Rightarrow>
               if remote_hash = file_hash then Inr (True, Some file_id) else Inr (False, None)))"

text \<open>
  Modelled from the spec: \<^verbatim>\<open>upload_if_needed(collection-id, local-path, remote-name, force)
  -> (id, was-new)\<close>: if a file with that name already exists it is replaced in place (same
  name, new content, new id and hash), never duplicated; otherwise it is created. The
  content identity of the local file comes from \<open>local_identity\<close>.
\<close>

definition spec_upload_file_if_needed ::
  "(string \<Rightarrow> string \<times> nat) \<Rightarrow> remote_state \<Rightarrow> nat \<Rightarrow> string \<Rightarrow> string \<Rightarrow> bool
     \<Rightarrow> error + ((nat \<times> bool) \<times> remote_state)" where
  "spec_upload_file_if_needed local_identity r article_id file_path file_name force_reupload =
     (case map_of (articles r) article_id of
        None \<Rightarrow> Inl (RemoteError ''no such article'')
      | Some files \<Rightarrow>
          Inr ((next_id r, map_of files file_name = None),
               r\<lparr>articles :=
                    AList.update article_id
                      (AList.update file_name (next_id r, fst (local_identity file_path)) files)
                      (articles r),
                  next_id := Suc (next_id r)\<rparr>))"

text \<open>
  Modelled from the spec: the remote repository service as a whole, for a catalogue
  \<open>ids\<close> of pre-registered collection ids and the content identities
  \<open>local_identity\<close> of the local files (\<^verbatim>\<open>identity(path) -> (hash, size)\<close>,
  deterministic); download URL = \<^verbatim>\<open>download-prefix/{id}\<close>, collection URL =
  \<^verbatim>\<open>collection-prefix/{id}\<close>.
\<close>

definition spec_figshare ::
  "(string \<times> nat option) list \<Rightarrow> (string \<Rightarrow> string \<times> nat) \<Rightarrow> remote_state figshare" where
  "spec_figshare ids local_identity =
     \<lparr> ARTICLE_IDS = ids,
       ARTICLE_URL_PREFIX = ''collection-prefix'',
       DOWNLOAD_URL_PREFIX = ''download-prefix'',
       CATEGORIES = [],
       article_exists = spec_article_exists,
       create_article = spec_create_article,
       get_existing_files = spec_get_existing_files,
       get_file_hash_and_size = (\<lambda>file_path. Inr (local_identity file_path)),
       file_exists_with_same_hash = spec_file_exists_with_same_hash,
       upload_file_if_needed = spec_upload_file_if_needed local_identity \<rparr>"

subsection \<open>Notions the statements use\<close>

text \<open>The calls that change the remote: creating an article and uploading a file.\<close>

definition mutating :: "call \<Rightarrow> bool" where
  "mutating c =
     (case c of
        CreateArticle metadata \<Rightarrow> True
      | UploadFileIfNeeded article_id file_path file_name force_reupload \<Rightarrow> True
      | _ \<Rightarrow> False)"

text \<open>Two states that differ in nothing but the lines printed.\<close>

definition only_printed :: "'r state \<Rightarrow> 'r state \<Rightarrow> bool" where
  "only_printed st s =
     (remote s = remote st \<and> isfile s = isfile st \<and> yaml_docs s = yaml_docs st
      \<and> writes s = writes st \<and> calls s = calls st \<and> metric_data s = metric_data st
      \<and> skipped_files s = skipped_files st \<and> updated_files s = updated_files st
      \<and> new_files s = new_files st)"

subsection \<open>Example inputs\<close>

text \<open>
  One task \<^verbatim>\<open>discovery\<close> whose article has the id 7, one model whose metadata file is
  \<^verbatim>\<open>models/m1.yml\<close>, and two local prediction files under the root \<^verbatim>\<open>/repo\<close>.
\<close>

definition example_config :: config where
  "example_config =
     \<lparr> ROOT = ''/repo'',
       MODELING_TASKS = [(''discovery'', ''Discovery'', ''Find stable crystals'')],
       pyproject_keywords = [''materials''],
       comprehensions_inlined = True \<rparr>"

definition example_identity :: "string \<Rightarrow> string \<times> nat" where
  "example_identity file_path = (''sha-of:'' @ file_path, length file_path)"

definition example_figshare :: "remote_state figshare" where
  "example_figshare = spec_figshare [(''model_preds_discovery'', Some 7)] example_identity"

definition example_model :: model where
  "example_model = \<lparr> name = ''m1'', yaml_path = ''models/m1.yml'' \<rparr>"

text \<open>The metadata document of the model, with the given mapping for the task.\<close>

definition example_doc :: "(string \<times> yaml) list \<Rightarrow> yaml" where
  "example_doc md =
     YDict [(''model_name'', YStr ''m1''), (''metrics'', YDict [(''discovery'', YDict md)])]"

text \<open>A state with the given files of article 7 on the remote and the given document.\<close>

definition example_state :: "(string \<times> nat \<times> string) list \<Rightarrow> yaml \<Rightarrow> remote_state state" where
  "example_state files doc =
     \<lparr> remote = \<lparr> articles = [(7, files)], next_id = 123 \<rparr>,
       isfile = (\<lambda>p. p = ''models/m1.yml'' \<or> p = ''/repo/a/b.csv'' \<or> p = ''/repo/a/c.csv''),
       yaml_docs = (\<lambda>p. if p = ''models/m1.yml'' then doc else YNull),
       writes = [], calls = [], stdout = [],
       metric_data = [], skipped_files = [], updated_files = [], new_files = [] \<rparr>"

subsection \<open>Notions the proofs use\<close>

text \<open>
  Two states with the same remote, the same files and documents on disk, the same
  list of files written, and the same calls that change the remote.
\<close>

definition dry_frame :: "'r state \<Rightarrow> 'r state \<Rightarrow> bool" where
  "dry_frame st s =
     (remote s = remote st \<and> isfile s = isfile st \<and> yaml_docs s = yaml_docs st
      \<and> writes s = writes st \<and> filter mutating (calls s) = filter mutating (calls st))"

text \<open>The keys of a dictionary.\<close>

definition keys :: "('k \<times> 'v) list \<Rightarrow> 'k set" where
  "keys d = fst ` set d"



text \<open>The state in which the loop over the models starts.\<close>

definition models_start :: "'r figshare \<Rightarrow> bool \<Rightarrow> nat \<Rightarrow> (string \<times> nat) list \<Rightarrow> 'r state \<Rightarrow> 'r state" where
  "models_start fg dry_run article_id existing_files st1 =
     (let st2 = print (NowUpdatingArticle (ARTICLE_URL_PREFIX fg @ ''/'' @ str_nat article_id)) st1;
          st3 = (if dry_run then print DryRunNotice st2 else st2);
          st4 = called (GetExistingFiles article_id) st3;
          st5 = st4\<lparr>stdout := stdout st4
                          @ FoundExistingFiles (length existing_files)
                          # map (\<lambda>(idx, (file_name, file_id)). ExistingFileLine idx file_name file_id)
                              (zip [1 ..< Suc (length existing_files)] existing_files)\<rparr>
      in st5\<lparr>skipped_files := [], updated_files := [], new_files := []\<rparr>)"

text \<open>No key that ends in \<^verbatim>\<open>_url\<close> holds a mapping, anywhere in the tree.\<close>

fun no_dict_url :: "(string \<times> yaml) list \<Rightarrow> bool" where
  "no_dict_url [] = True"
| "no_dict_url ((key, YDict d) # rest) = (\<not> endswith key ''_url'' \<and> no_dict_url d \<and> no_dict_url rest)"
| "no_dict_url ((key, _) # rest) = no_dict_url rest"

text \<open>The value in the slot that \<open>set_at parts last_key\<close> assigns, if the slot is there.\<close>

fun get_at :: "string list \<Rightarrow> string \<Rightarrow> (string \<times> yaml) list \<Rightarrow> yaml option" where
  "get_at [] last_key d = map_of d last_key"
| "get_at (part # parts) last_key d =
     (case map_of d part of
        Some (YDict d') \<Rightarrow> get_at parts last_key d'
      | _ \<Rightarrow> None)"

text \<open>\<^verbatim>\<open>c.join(words)\<close>, the inverse of \<open>split_on\<close>.\<close>

fun join_on :: "char \<Rightarrow> string list \<Rightarrow> string" where
  "join_on c [] = []"
| "join_on c [w] = w"
| "join_on c (w # ws) = w @ c # join_on c ws"

text \<open>
  The id under which the article holds a file of the name \<open>rel\<close> whose hash is that of
  the local file, if it holds one: the answer of the point query for the local file.
\<close>

definition held ::
  "(string \<Rightarrow> string \<times> nat) \<Rightarrow> config \<Rightarrow> remote_state \<Rightarrow> nat \<Rightarrow> string \<Rightarrow> nat option" where
  "held ident cfg r aid rel =
     (case map_of (articles r) aid of
        None \<Rightarrow> None
      | Some files \<Rightarrow>
          (case map_of files rel of
             None \<Rightarrow> None
           | Some (file_id, remote_hash) \<Rightarrow>
               if remote_hash = fst (ident (ROOT cfg @ ''/'' @ rel)) then Some file_id else None))"

text \<open>The download URL of a file on the remote of the specification.\<close>

definition spec_url :: "nat \<Rightarrow> string" where
  "spec_url file_id = ''download-prefix'' @ ''/'' @ str_nat file_id"

text \<open>
  A match for the key-path \<open>kp\<close> leaves the tree as it is: the key \<^verbatim>\<open>url_key\<close> is at the
  top of the tree, or the slot already holds the URL of the file.
\<close>

definition slot_ok :: "(string \<times> yaml) list \<Rightarrow> string \<Rightarrow> nat \<Rightarrow> bool" where
  "slot_ok md kp file_id =
     (map_of md (kp @ ''_url'') \<noteq> None
      \<or> get_at (butlast (split_on CHR ''.'' (kp @ ''_url''))) (last (split_on CHR ''.'' (kp @ ''_url'')))
           md = Some (YStr (spec_url file_id)))"

text \<open>A file reference that exists locally is held by the remote, and its slot needs no write.\<close>

definition file_settled ::
  "(string \<Rightarrow> string \<times> nat) \<Rightarrow> config \<Rightarrow> nat \<Rightarrow> remote_state \<Rightarrow> (string \<Rightarrow> bool)
     \<Rightarrow> (string \<times> yaml) list \<Rightarrow> string \<times> string \<Rightarrow> bool" where
  "file_settled ident cfg aid r isf md kv =
     (if isf (ROOT cfg @ ''/'' @ snd kv)
      then (case held ident cfg r aid (snd kv) of
              None \<Rightarrow> False
            | Some file_id \<Rightarrow> slot_ok md (fst kv) file_id)
      else True)"

text \<open>Every file reference the walk finds in the tree is settled.\<close>

definition tree_settled ::
  "(string \<Rightarrow> string \<times> nat) \<Rightarrow> config \<Rightarrow> nat \<Rightarrow> string \<Rightarrow> remote_state \<Rightarrow> (string \<Rightarrow> bool)
     \<Rightarrow> (string \<times> yaml) list \<Rightarrow> bool" where
  "tree_settled ident cfg aid ft r isf md =
     list_all (file_settled ident cfg aid r isf md) (find_file_keys ft md [])"

text \<open>The metadata file at the path \<open>p\<close>, if there is one, loads and its tree for the task is settled.\<close>

definition model_settled ::
  "(string \<Rightarrow> string \<times> nat) \<Rightarrow> config \<Rightarrow> string \<Rightarrow> nat \<Rightarrow> string \<Rightarrow> remote_state state
     \<Rightarrow> string \<Rightarrow> bool" where
  "model_settled ident cfg task aid ft s p =
     (if isfile s p
      then (case get_metric_data (yaml_docs s p) task of
              Inl e \<Rightarrow> False
            | Inr (YDict md) \<Rightarrow> tree_settled ident cfg aid ft (remote s) (isfile s) md
            | Inr _ \<Rightarrow> True)
      else True)"

text \<open>
  Two states with the same remote, the same files and documents on disk, and the same
  \<^verbatim>\<open>updated_files\<close> and \<^verbatim>\<open>new_files\<close>.
\<close>

definition quiet :: "'r state \<Rightarrow> 'r state \<Rightarrow> bool" where
  "quiet st s =
     (remote s = remote st \<and> isfile s = isfile st \<and> yaml_docs s = yaml_docs st
      \<and> updated_files s = updated_files st \<and> new_files s = new_files st)"

text \<open>
  The discovered artifacts of the model whose metadata file is at the path \<open>p\<close>: the
  relative paths that the walk finds in its tree for the task and that are files.
\<close>

definition discovered :: "config \<Rightarrow> string \<Rightarrow> string \<Rightarrow> 'r state \<Rightarrow> string \<Rightarrow> string set" where
  "discovered cfg task ft s p =
     (if isfile s p
      then (case get_metric_data (yaml_docs s p) task of
              Inr (YDict md) \<Rightarrow>
                set (map snd (filter (\<lambda>kv. isfile s (ROOT cfg @ ''/'' @ snd kv))
                                (find_file_keys ft md [])))
            | _ \<Rightarrow> {})
      else {})"

text \<open>The slot of a key-path: the parts to descend, and the key to assign.\<close>

definition slot_parts :: "string \<Rightarrow> string list" where
  "slot_parts kp = butlast (split_on CHR ''.'' (kp @ ''_url''))"

definition slot_last :: "string \<Rightarrow> string" where
  "slot_last kp = last (split_on CHR ''.'' (kp @ ''_url''))"

text \<open>
  What the loop body does to the state for one file reference, in a real run without
  force, when it does not raise.
\<close>

definition first_effect ::
  "(string \<Rightarrow> string \<times> nat) \<Rightarrow> config \<Rightarrow> nat \<Rightarrow> string \<Rightarrow> string
     \<Rightarrow> remote_state state \<Rightarrow> remote_state state \<Rightarrow> bool" where
  "first_effect ident cfg aid kp rel st t =
     (isfile t = isfile st \<and> yaml_docs t = yaml_docs st \<and> writes t = writes st
      \<and> (\<forall>rel0 j. held ident cfg (remote st) aid rel0 = Some j
                  \<longrightarrow> held ident cfg (remote t) aid rel0 = Some j)
      \<and> (map_of (articles (remote st)) aid \<noteq> None \<longrightarrow> map_of (articles (remote t)) aid \<noteq> None)
      \<and> ((\<not> isfile st (ROOT cfg @ ''/'' @ rel) \<and> metric_data t = metric_data st)
         \<or> (\<exists>i. held ident cfg (remote t) aid rel = Some i
               \<and> ((metric_data t = metric_data st \<and> map_of (metric_data st) (kp @ ''_url'') \<noteq> None)
                  \<or> set_at (slot_parts kp) (slot_last kp) (YStr (spec_url i)) (metric_data st)
                       = Inr (metric_data t)))))"

text \<open>
  From a state to a later one of a real run without force: the files the remote held
  with the hash of the local file are still held, under the same id.
\<close>

definition first_frame ::
  "(string \<Rightarrow> string \<times> nat) \<Rightarrow> config \<Rightarrow> nat \<Rightarrow> remote_state state \<Rightarrow> remote_state state \<Rightarrow> bool" where
  "first_frame ident cfg aid st t =
     (isfile t = isfile st
      \<and> (\<forall>rel0 j. held ident cfg (remote st) aid rel0 = Some j
                  \<longrightarrow> held ident cfg (remote t) aid rel0 = Some j)
      \<and> (map_of (articles (remote st)) aid \<noteq> None \<longrightarrow> map_of (articles (remote t)) aid \<noteq> None))"

text \<open>
  In the tree for the task of the metadata file at the path \<open>p\<close>, no key ending in
  \<^verbatim>\<open>_url\<close> holds a mapping.
\<close>

definition locators_plain :: "string \<Rightarrow> 'r state \<Rightarrow> string \<Rightarrow> bool" where
  "locators_plain task s p =
     (if isfile s p
      then (case get_metric_data (yaml_docs s p) task of
              Inr (YDict md) \<Rightarrow> no_dict_url md
            | _ \<Rightarrow> True)
      else True)"

section \<open>Properties\<close>

subsection \<open>Strings and dictionaries\<close>

lemma endswith_iff_suffix: "endswith s suf \<longleftrightarrow> suffix suf s"
  unfolding endswith_def suffix_def
  by (metis append_eq_conv_conj append_take_drop_id diff_add_inverse2 length_append length_drop le_add2)

lemma endswith_append_dot:
  assumes "CHR ''.'' \<notin> set suf"
  shows "endswith (p @ ''.'' @ k) suf \<longleftrightarrow> endswith k suf"
  using assms unfolding endswith_iff_suffix
  by (auto simp: suffix_append suffix_Cons)

lemma endswith_full_key:
  "CHR ''.'' \<notin> set suf \<Longrightarrow> endswith (full_key_of pre k) suf \<longleftrightarrow> endswith k suf"
  using endswith_append_dot[of suf pre k] by (simp add: full_key_of_def)

lemma map_of_dict_ior: "map_of (dict_ior d other) = map_of d ++ map_of (rev other)"
  unfolding dict_ior_def
  by (induction other arbitrary: d)
     (auto simp: AList.update_conv' map_add_upd_left fun_eq_iff map_add_def split: option.splits)

lemma distinct_dict_ior: "distinct (map fst d) \<Longrightarrow> distinct (map fst (dict_ior d other))"
  unfolding dict_ior_def
  by (induction other arbitrary: d) (auto simp: AList.distinct_update)

lemma map_of_rev_distinct: "distinct (map fst xs) \<Longrightarrow> map_of (rev xs) = map_of xs"
proof -
  assume d: "distinct (map fst xs)"
  then have "distinct (map fst (rev xs))" by (simp add: rev_map[symmetric])
  then show ?thesis using d by (simp add: map_of_inject_set)
qed

subsection \<open>The walk over the metadata tree\<close>

lemma distinct_find_file_keys_loop:
  "distinct (map fst result) \<Longrightarrow> distinct (map fst (find_file_keys_loop ft pre items result))"
  by (induction ft pre items result rule: find_file_keys_loop.induct)
     (auto simp: AList.distinct_update distinct_dict_ior)

lemma distinct_find_file_keys: "distinct (map fst (find_file_keys ft data pre))"
  unfolding find_file_keys_def by (rule distinct_find_file_keys_loop) simp

text \<open>The dictionary the walk returns holds, for each key-path, the pair stored last.\<close>

lemma map_of_find_file_keys_loop:
  "map_of (find_file_keys_loop ft pre items result)
     = map_of result ++ map_of (rev (emitted ft pre items))"
proof (induction ft pre items result rule: find_file_keys_loop.induct)
  case (2 ft pre key d rest result)
  have "distinct (map fst (find_file_keys_loop ft (full_key_of pre key) d []))"
    by (rule distinct_find_file_keys_loop) simp
  then show ?case using 2
    by (simp add: map_of_dict_ior map_of_rev_distinct)
next
  case (3 ft pre key s rest result)
  then show ?case
    by (auto simp: AList.update_conv' fun_eq_iff map_add_def split: option.splits)
qed simp_all

lemma find_file_keys_set:
  "set (find_file_keys ft data pre) = {(k, v). map_of (rev (emitted ft pre data)) k = Some v}"
proof -
  have "set (find_file_keys ft data pre)
          = {(k, v). map_of (find_file_keys ft data pre) k = Some v}"
    using distinct_find_file_keys[of ft data pre] by auto
  then show ?thesis
    by (simp add: find_file_keys_def map_of_find_file_keys_loop)
qed

lemma emitted_pred_filter:
  "emitted ''pred'' pre items
     = filter (\<lambda>(fk, v). endswith fk ''pred_file'') (emitted ''all'' pre items)"
proof (induction "''pred''" pre items rule: emitted.induct)
  case (3 pre key s rest)
  have a: "endswith (full_key_of pre key) ''pred_file'' = endswith key ''pred_file''"
    by (rule endswith_full_key) simp
  have b: "endswith key ''pred_file'' \<Longrightarrow> endswith key ''_file''"
    unfolding endswith_iff_suffix by (auto simp: suffix_def)
  show ?case using 3 a b by (auto simp: should_process_file_def)
qed (simp_all add: should_process_file_def)

lemma emitted_keys_endswith:
  "(fk, v) \<in> set (emitted ft pre items) \<Longrightarrow> endswith fk ''_file''"
proof (induction ft pre items rule: emitted.induct)
  case (3 ft pre key s rest)
  have a: "endswith (full_key_of pre key) ''_file'' = endswith key ''_file''"
    by (rule endswith_full_key) simp
  show ?case using 3 a by (auto split: if_splits)
qed auto

lemma find_file_keys_endswith:
  assumes "(kp, v) \<in> set (find_file_keys ft data pre)"
  shows "endswith kp ''_file''"
proof -
  have "map_of (rev (emitted ft pre data)) kp = Some v"
    using assms by (simp add: find_file_keys_set)
  then have "(kp, v) \<in> set (emitted ft pre data)"
    by (auto dest: map_of_SomeD)
  then show ?thesis by (rule emitted_keys_endswith)
qed

lemma leaf_entries_endswith:
  "(fk, k, v) \<in> set (leaf_entries pre items)
     \<Longrightarrow> endswith fk ''_file'' = endswith k ''_file''"
proof (induction pre items rule: leaf_entries.induct)
  case (1 pre)
  then show ?case by simp
next
  case (2 pre key d rest)
  then show ?case by auto
qed (use endswith_full_key[of "''_file''"] in auto)

lemma find_file_keys_pred_subset:
  "set (find_file_keys ''pred'' data pre) \<subseteq> set (find_file_keys ''all'' data pre)"
proof -
  let ?P = "\<lambda>fk. endswith fk ''pred_file''"
  have "rev (emitted ''pred'' pre data)
          = AList.restrict {k. ?P k} (rev (emitted ''all'' pre data))"
    by (simp add: emitted_pred_filter AList.restrict_eq rev_filter case_prod_unfold)
  then have "map_of (rev (emitted ''pred'' pre data))
          = map_of (rev (emitted ''all'' pre data)) |` {k. ?P k}"
    by (simp add: AList.restr_conv')
  then show ?thesis
    by (auto simp: find_file_keys_set restrict_map_def split: if_splits)
qed

lemma find_file_keys_pred_exact:
  "set (find_file_keys ''pred'' data pre)
     = {kv \<in> set (find_file_keys ''all'' data pre). endswith (fst kv) ''pred_file''}"
proof -
  let ?P = "\<lambda>fk. endswith fk ''pred_file''"
  have "rev (emitted ''pred'' pre data)
          = AList.restrict {k. ?P k} (rev (emitted ''all'' pre data))"
    by (simp add: emitted_pred_filter AList.restrict_eq rev_filter case_prod_unfold)
  then have "map_of (rev (emitted ''pred'' pre data))
          = map_of (rev (emitted ''all'' pre data)) |` {k. ?P k}"
    by (simp add: AList.restr_conv')
  then show ?thesis
    by (auto simp: find_file_keys_set restrict_map_def split: if_splits)
qed

text \<open>
  C7. With the filter \<^verbatim>\<open>pred\<close> the walk returns exactly the pairs it returns with the
  filter \<^verbatim>\<open>all\<close> whose key-path ends in \<^verbatim>\<open>pred_file\<close>. So the result for
  \<^verbatim>\<open>pred\<close> is a subset of the result for \<^verbatim>\<open>all\<close>; the subset is strict if and
  only if the result for \<^verbatim>\<open>all\<close> has a file reference that is not a prediction
  file, and the two results are equal if and only if every file reference is a
  prediction file. Whatever the filter, every key-path returned ends in
  \<^verbatim>\<open>_file\<close>, and the key-path of an entry of the tree whose own key does not end in
  \<^verbatim>\<open>_file\<close> is not among the key-paths returned.
\<close>

theorem find_file_keys_filter_correct:
  "set (find_file_keys ''pred'' data pre)
     = {kv \<in> set (find_file_keys ''all'' data pre). endswith (fst kv) ''pred_file''}
   \<and> (set (find_file_keys ''pred'' data pre) \<subset> set (find_file_keys ''all'' data pre)
        \<longleftrightarrow> (\<exists>kv \<in> set (find_file_keys ''all'' data pre). \<not> endswith (fst kv) ''pred_file''))
   \<and> (set (find_file_keys ''pred'' data pre) = set (find_file_keys ''all'' data pre)
        \<longleftrightarrow> (\<forall>kv \<in> set (find_file_keys ''all'' data pre). endswith (fst kv) ''pred_file''))
   \<and> (\<forall>kp v. (kp, v) \<in> set (find_file_keys ft data pre) \<longrightarrow> endswith kp ''_file'')
   \<and> (\<forall>fk k v. (fk, k, v) \<in> set (leaf_entries pre data) \<and> \<not> endswith k ''_file''
         \<longrightarrow> fk \<notin> fst ` set (find_file_keys ft data pre))"
proof (intro conjI allI impI)
  show e: "set (find_file_keys ''pred'' data pre)
     = {kv \<in> set (find_file_keys ''all'' data pre). endswith (fst kv) ''pred_file''}"
    by (rule find_file_keys_pred_exact)
  show "set (find_file_keys ''pred'' data pre) \<subset> set (find_file_keys ''all'' data pre)
        \<longleftrightarrow> (\<exists>kv \<in> set (find_file_keys ''all'' data pre). \<not> endswith (fst kv) ''pred_file'')"
    unfolding e by blast
  show "set (find_file_keys ''pred'' data pre) = set (find_file_keys ''all'' data pre)
        \<longleftrightarrow> (\<forall>kv \<in> set (find_file_keys ''all'' data pre). endswith (fst kv) ''pred_file'')"
    unfolding e by blast
next
  fix kp v
  assume "(kp, v) \<in> set (find_file_keys ft data pre)"
  then show "endswith kp ''_file''" by (rule find_file_keys_endswith)
next
  fix fk k v
  assume a: "(fk, k, v) \<in> set (leaf_entries pre data) \<and> \<not> endswith k ''_file''"
  then have "\<not> endswith fk ''_file''" using leaf_entries_endswith by blast
  then show "fk \<notin> fst ` set (find_file_keys ft data pre)"
    using find_file_keys_endswith by fastforce
qed

text \<open>
  The statement at a tree with a prediction file, an analysis file nested one level
  down and a number: the filter \<^verbatim>\<open>pred\<close> keeps the first only, a strict subset of
  what the filter \<^verbatim>\<open>all\<close> returns, and the number is never returned. At the tree with
  the prediction file alone the two results are equal.
\<close>

theorem find_file_keys_filter_correct_witness:
  "set (find_file_keys ''pred''
          [(''energy_pred_file'', YStr ''a/b.csv''),
           (''geo'', YDict [(''rmsd_analysis_file'', YStr ''a/c.csv''), (''n_structs'', YNum 5)])] [])
     \<subset> set (find_file_keys ''all''
          [(''energy_pred_file'', YStr ''a/b.csv''),
           (''geo'', YDict [(''rmsd_analysis_file'', YStr ''a/c.csv''), (''n_structs'', YNum 5)])] [])
   \<and> set (find_file_keys ''pred''
          [(''energy_pred_file'', YStr ''a/b.csv''),
           (''geo'', YDict [(''rmsd_analysis_file'', YStr ''a/c.csv''), (''n_structs'', YNum 5)])] [])
     = {(''energy_pred_file'', ''a/b.csv'')}
   \<and> set (find_file_keys ''pred'' [(''energy_pred_file'', YStr ''a/b.csv'')] [])
     = set (find_file_keys ''all'' [(''energy_pred_file'', YStr ''a/b.csv'')] [])
   \<and> endswith ''geo.rmsd_analysis_file'' ''_file''
   \<and> ''geo.n_structs'' \<notin> fst ` set (find_file_keys ''analysis''
          [(''energy_pred_file'', YStr ''a/b.csv''),
           (''geo'', YDict [(''rmsd_analysis_file'', YStr ''a/c.csv''), (''n_structs'', YNum 5)])] [])"
proof -
  let ?data = "[(''energy_pred_file'', YStr ''a/b.csv''),
           (''geo'', YDict [(''rmsd_analysis_file'', YStr ''a/c.csv''), (''n_structs'', YNum 5)])]"
  let ?one = "[(''energy_pred_file'', YStr ''a/b.csv'')]"
  note t = find_file_keys_filter_correct[of ?data "[]" "''analysis''"]
  note u = find_file_keys_filter_correct[of ?one "[]" "''all''"]
  have all: "find_file_keys ''all'' ?data []
               = [(''energy_pred_file'', ''a/b.csv''), (''geo.rmsd_analysis_file'', ''a/c.csv'')]"
    by (simp add: find_file_keys_def endswith_def should_process_file_def full_key_of_def dict_ior_def)
  have one: "find_file_keys ''all'' ?one [] = [(''energy_pred_file'', ''a/b.csv'')]"
    by (simp add: find_file_keys_def endswith_def should_process_file_def full_key_of_def dict_ior_def)
  have m: "(''geo.rmsd_analysis_file'', ''a/c.csv'') \<in> set (find_file_keys ''analysis'' ?data [])"
    by (simp add: find_file_keys_def endswith_def should_process_file_def full_key_of_def dict_ior_def)
  have l: "(''geo.n_structs'', ''n_structs'', YNum 5) \<in> set (leaf_entries [] ?data)"
    by (simp add: full_key_of_def)
  have n: "\<not> endswith ''n_structs'' ''_file''"
    by (simp add: endswith_def)
  have p: "endswith ''energy_pred_file'' ''pred_file''"
    and q: "\<not> endswith ''geo.rmsd_analysis_file'' ''pred_file''"
    by (simp_all add: endswith_def)
  have c1: "set (find_file_keys ''pred'' ?data []) \<subset> set (find_file_keys ''all'' ?data [])"
  proof -
    have "\<exists>kv \<in> set (find_file_keys ''all'' ?data []). \<not> endswith (fst kv) ''pred_file''"
      unfolding all using q by simp
    then show ?thesis using t by blast
  qed
  have c2: "set (find_file_keys ''pred'' ?data []) = {(''energy_pred_file'', ''a/b.csv'')}"
  proof -
    have "set (find_file_keys ''pred'' ?data [])
            = {kv \<in> set (find_file_keys ''all'' ?data []). endswith (fst kv) ''pred_file''}"
      using t by blast
    also have "\<dots> = {(''energy_pred_file'', ''a/b.csv'')}"
      unfolding all using p q by auto
    finally show ?thesis .
  qed
  have c3: "set (find_file_keys ''pred'' ?one []) = set (find_file_keys ''all'' ?one [])"
  proof -
    have "\<forall>kv \<in> set (find_file_keys ''all'' ?one []). endswith (fst kv) ''pred_file''"
      unfolding one using p by simp
    then show ?thesis using u by blast
  qed
  from t m have c4: "endswith ''geo.rmsd_analysis_file'' ''_file''" by blast
  from t l n have c5: "''geo.n_structs'' \<notin> fst ` set (find_file_keys ''analysis'' ?data [])"
    by blast
  show ?thesis using c1 c2 c3 c4 c5 by blast
qed

text \<open>
  The subset is not strict for a tree whose only file reference is a prediction file:
  both filters return the same pair.
\<close>

theorem find_file_keys_pred_not_strict:
  "\<not> (set (find_file_keys ''pred'' [(''energy_pred_file'', YStr ''a/b.csv'')] [])
        \<subset> set (find_file_keys ''all'' [(''energy_pred_file'', YStr ''a/b.csv'')] []))"
  by (simp add: find_file_keys_def endswith_def should_process_file_def full_key_of_def)

subsection \<open>Evaluation and loops\<close>

lemmas run_defs =
  update_one_modeling_task_article_def resolve_article_def process_model_def process_file_def
  skip_existing_def upload_file_def get_metric_data_def dumped_model_data_def find_file_keys_def
  print_summary_def file_lines_def called_def print_def download_url_def removeprefix_def
  endswith_def should_process_file_def full_key_of_def dict_ior_def digit_char_def Let_def
  main_def failure_state_def main_locals_def locals_get_def

lemmas spec_defs =
  spec_figshare_def spec_article_exists_def spec_create_article_def spec_get_existing_files_def
  spec_file_exists_with_same_hash_def spec_upload_file_if_needed_def

lemmas example_defs =
  example_config_def example_identity_def example_figshare_def example_model_def example_doc_def
  example_state_def

lemma for_each_preserves:
  assumes "P st"
    and "\<And>x s s' e. x \<in> set xs \<Longrightarrow> P s \<Longrightarrow> body x s = (s', e) \<Longrightarrow> P s'"
  shows "P (fst (for_each body xs st))"
  using assms
proof (induction xs arbitrary: st)
  case Nil
  then show ?case by simp
next
  case (Cons x xs)
  obtain s' e where b: "body x st = (s', e)" by (cases "body x st")
  have p: "P s'" using Cons.prems(1) Cons.prems(2)[of x st s' e] b by simp
  show ?case
  proof (cases e)
    case None
    have "P (fst (for_each body xs s'))"
      by (rule Cons.IH[OF p]) (use Cons.prems(2) in auto)
    then show ?thesis using b None by simp
  next
    case (Some a)
    then show ?thesis using b p by simp
  qed
qed

lemma for_each_result:
  assumes "for_each body xs st = (s', e)" and "P st"
    and "\<And>x s t r. x \<in> set xs \<Longrightarrow> P s \<Longrightarrow> body x s = (t, r) \<Longrightarrow> P t"
  shows "P s'"
  using for_each_preserves[of P st xs body] assms by fastforce

lemma process_file_dry_run:
  "process_file fg cfg task m True force aid existing kv st = (s', e) \<Longrightarrow>
     e = None \<and> only_printed st s'"
  by (auto simp: process_file_def upload_file_def print_def Let_def only_printed_def split: if_splits)

lemma files_loop_dry_run:
  assumes "for_each (process_file fg cfg task m True force aid existing) kvs st = (s', e)"
  shows "only_printed st s'"
proof (rule for_each_result[OF assms])
  show "only_printed st st" by (simp add: only_printed_def)
next
  fix x s t r
  assume "only_printed st s" "process_file fg cfg task m True force aid existing x s = (t, r)"
  then show "only_printed st t"
    by (auto dest!: process_file_dry_run simp: only_printed_def)
qed

lemma dry_frame_refl: "dry_frame st st"
  by (simp add: dry_frame_def)

lemma dry_frame_trans: "dry_frame a b \<Longrightarrow> dry_frame b c \<Longrightarrow> dry_frame a c"
  by (simp add: dry_frame_def)

lemma process_model_dry_run:
  assumes "process_model fg cfg task True ft force aid existing m st = (s', e)"
  shows "dry_frame st s'"
  using assms
  by (auto simp: process_model_def print_def Let_def only_printed_def dry_frame_def
        split: if_splits sum.splits yaml.splits prod.splits option.splits
        dest!: files_loop_dry_run)

lemma models_loop_dry_run:
  assumes "for_each (process_model fg cfg task True ft force aid existing) models st = (s', e)"
  shows "dry_frame st s'"
proof (rule for_each_result[OF assms])
  fix x s t r
  assume "dry_frame st s" "process_model fg cfg task True ft force aid existing x s = (t, r)"
  then show "dry_frame st t"
    using process_model_dry_run dry_frame_trans by blast
qed (rule dry_frame_refl)

lemma resolve_article_dry_run:
  assumes "resolve_article fg cfg task True st = (s', r)"
  shows "dry_frame st s'"
  using assms
  by (auto simp: resolve_article_def print_def called_def mutating_def dry_frame_def
      split: option.splits sum.splits bool.splits prod.splits if_splits)

lemma update_one_dry_run:
  assumes "update_one_modeling_task_article fg cfg task models True ft force st = (s', e)"
  shows "dry_frame st s'"
  using assms
  apply (simp add: update_one_modeling_task_article_def Let_def split: prod.splits sum.splits option.splits)
  apply (auto dest!: resolve_article_dry_run models_loop_dry_run simp: print_def called_def mutating_def print_summary_def dry_frame_def)
  done

lemma main_tasks_dry_run:
  assumes "main_tasks fg cfg parsed ts st = (s', r)" "arg_dry_run parsed"
  shows "dry_frame st s'"
  using assms
proof (induction ts arbitrary: st)
  case Nil
  then show ?case by (simp add: dry_frame_def)
next
  case (Cons t ts)
  then show ?case
    by (auto split: prod.splits option.splits dest!: update_one_dry_run intro: dry_frame_trans)
qed

lemma main_dry_run:
  assumes "main fg cfg parsed st = (s', r)" "arg_dry_run parsed"
  shows "dry_frame st s'"
proof -
  have "dry_frame (print (FileTypeFilter (arg_file_type parsed)) (print (UpdatingTasks (length (arg_tasks parsed)) (arg_tasks parsed))
      (print (UpdatingModels (length (arg_models parsed)) (map name (arg_models parsed))) (print DryRunNotice st)))) s'"
    (is "dry_frame ?s4 s'")
    using assms by (auto simp: main_def Let_def print_def dry_frame_def split: if_splits dest!: main_tasks_dry_run)
  then show ?thesis by (simp add: dry_frame_def print_def)
qed

text \<open>
  C2. In a dry run nothing is changed, whatever the task, the models, the file-type
  filter and the force flag: after \<^verbatim>\<open>main\<close>, and after
  \<^verbatim>\<open>update_one_modeling_task_article\<close>, the remote, the files on disk, the metadata
  documents and the list of metadata files written are what they were, and no call that
  creates an article or uploads a file has been made; and the loop over the file
  references of a model leaves \<^verbatim>\<open>metric_data\<close>, the tree in memory, as it was.
\<close>

theorem dry_run_never_mutates:
  "dry_frame st (fst (main fg cfg (parsed\<lparr>arg_dry_run := True\<rparr>) st))
   \<and> dry_frame st
       (fst (update_one_modeling_task_article fg cfg task models True file_type force_reupload st))
   \<and> only_printed st
       (fst (for_each (process_file fg cfg task m True force_reupload article_id existing_files)
               kvs st))"
  using main_dry_run[of fg cfg "parsed\<lparr>arg_dry_run := True\<rparr>" st]
    update_one_dry_run[of fg cfg task models file_type force_reupload st]
    files_loop_dry_run[of fg cfg task m force_reupload article_id existing_files kvs st]
  by (metis prod.collapse parsed_args.select_convs(3) parsed_args.surjective
      parsed_args.update_convs(3))

subsection \<open>Where the script departs from what is said of it\<close>

text \<open>
  C5. A dry run over a model with one prediction file that exists locally records
  nothing for the file: the three dictionaries stay empty, the only lines printed are
  those about the article and the summary \<^verbatim>\<open>No files were added or updated.\<close>, and
  the only calls are the two made before the loop over the models.
\<close>

theorem dry_run_reports_no_file:
  "update_one_modeling_task_article example_figshare example_config ''discovery'' [example_model]
       True ''all'' False (example_state [] (example_doc [(''energy_pred_file'', YStr ''a/b.csv'')]))
   = ((example_state [] (example_doc [(''energy_pred_file'', YStr ''a/b.csv'')]))
        \<lparr> calls := [ArticleExists 7, GetExistingFiles 7],
          stdout := [FoundExistingArticle ''discovery'' 7, NowUpdatingArticle ''collection-prefix/7'',
                     DryRunNotice, FoundExistingFiles 0, NewlyAddedCount 0, UpdatedCount 0,
                     SkippedCount 0, NoFilesAddedOrUpdated],
          metric_data := [(''energy_pred_file'', YStr ''a/b.csv'')] \<rparr>, None)"
  by (simp add: run_defs spec_defs example_defs str_nat.simps)

text \<open>
  C1. The remote holds \<^verbatim>\<open>a/b.csv\<close> with the hash of the local file, as file 5, and
  the run is a real one without force. A locator that is already there is kept when
  the file reference is at the top of the tree, and is overwritten when the file
  reference is nested: \<^verbatim>\<open>url_key not in metric_data\<close> looks the dotted key up at the
  top of the tree, where a nested key-path never is.
\<close>

theorem nested_locator_overwritten:
  "yaml_docs (fst (update_one_modeling_task_article example_figshare example_config ''discovery''
       [example_model] False ''all'' False
       (example_state [(''a/b.csv'', 5, ''sha-of:/repo/a/b.csv'')]
          (example_doc [(''rmsd_analysis_file'', YStr ''a/b.csv''),
                        (''rmsd_analysis_file_url'', YStr ''https://example.org/kept'')]))))
     ''models/m1.yml''
   = example_doc [(''rmsd_analysis_file'', YStr ''a/b.csv''),
                  (''rmsd_analysis_file_url'', YStr ''https://example.org/kept'')]
   \<and> yaml_docs (fst (update_one_modeling_task_article example_figshare example_config ''discovery''
       [example_model] False ''all'' False
       (example_state [(''a/b.csv'', 5, ''sha-of:/repo/a/b.csv'')]
          (example_doc [(''geo'', YDict [(''rmsd_analysis_file'', YStr ''a/b.csv''),
                                        (''rmsd_analysis_file_url'', YStr ''https://example.org/kept'')])]))))
     ''models/m1.yml''
   = example_doc [(''geo'', YDict [(''rmsd_analysis_file'', YStr ''a/b.csv''),
                                  (''rmsd_analysis_file_url'', YStr ''download-prefix/5'')])]"
  by (simp add: run_defs spec_defs example_defs str_nat.simps)

text \<open>
  C8. In a real run the metadata file of a model is written although its tree was not
  changed: for a model with no file reference, and for a model whose only referenced
  file is missing locally.
\<close>

theorem unchanged_model_rewritten:
  "writes (fst (update_one_modeling_task_article example_figshare example_config ''discovery''
       [example_model] False ''all'' False (example_state [] (example_doc []))))
     = [''models/m1.yml'']
   \<and> writes (fst (update_one_modeling_task_article example_figshare example_config ''discovery''
       [example_model] False ''all'' False
       (example_state [] (example_doc [(''energy_pred_file'', YStr ''a/missing.csv'')]))))
     = [''models/m1.yml'']"
  by (simp add: run_defs spec_defs example_defs str_nat.simps)

text \<open>
  C10. In a real run the metadata file of a model is written when the document has no
  \<^verbatim>\<open>metrics\<close> entry, and when \<^verbatim>\<open>metrics\<close> has no entry for the task; it is not
  written when the entry for the task is a string.
\<close>

theorem model_without_task_entry_rewritten:
  "writes (fst (update_one_modeling_task_article example_figshare example_config ''discovery''
       [example_model] False ''all'' False
       (example_state [] (YDict [(''model_name'', YStr ''m1'')]))))
     = [''models/m1.yml'']
   \<and> writes (fst (update_one_modeling_task_article example_figshare example_config ''discovery''
       [example_model] False ''all'' False
       (example_state []
          (YDict [(''model_name'', YStr ''m1''), (''metrics'', YDict [(''phonons'', YDict [])])]))))
     = [''models/m1.yml'']
   \<and> writes (fst (update_one_modeling_task_article example_figshare example_config ''discovery''
       [example_model] False ''all'' False
       (example_state []
          (YDict [(''model_name'', YStr ''m1''),
                  (''metrics'', YDict [(''discovery'', YStr ''not available'')])]))))
     = []"
  by (simp add: run_defs spec_defs example_defs str_nat.simps)

text \<open>
  C9. The metadata document of the model is a list, so the first task raises
  \<^verbatim>\<open>AttributeError\<close> while the model \<^verbatim>\<open>m1\<close> is processed. \<^verbatim>\<open>main\<close> stops there (the
  second task makes no call and prints nothing) and raises the error with the state
  attached, in which \<^verbatim>\<open>model_name\<close> is \<^verbatim>\<open>None\<close>: \<^verbatim>\<open>main\<close> has no variable of that
  name. Under an interpreter that gives the comprehension a frame of its own the run is
  the same and all four entries of the state are \<^verbatim>\<open>None\<close>.
\<close>

theorem failure_state_has_no_model:
  "main example_figshare example_config
     \<lparr> arg_models = [example_model], arg_tasks = [''discovery'', ''phonons''], arg_dry_run = False,
       arg_file_type = ''all'', arg_force_reupload = False \<rparr>
     (example_state [] (YSeq []))
   = ((example_state [] (YSeq []))
        \<lparr> calls := [ArticleExists 7, GetExistingFiles 7],
          stdout := [UpdatingModels 1 [''m1''], UpdatingTasks 2 [''discovery'', ''phonons''],
                     FileTypeFilter ''all'', FoundExistingArticle ''discovery'' 7,
                     NowUpdatingArticle ''collection-prefix/7'', FoundExistingFiles 0] \<rparr>,
      Raised AttributeError
        [(''task'', PStr ''discovery''), (''model_name'', PNone),
         (''models_to_update'', PModels [example_model]),
         (''tasks_to_update'', PStrs [''discovery'', ''phonons''])])
   \<and> main example_figshare (example_config\<lparr>comprehensions_inlined := False\<rparr>)
     \<lparr> arg_models = [example_model], arg_tasks = [''discovery'', ''phonons''], arg_dry_run = False,
       arg_file_type = ''all'', arg_force_reupload = False \<rparr>
     (example_state [] (YSeq []))
   = ((example_state [] (YSeq []))
        \<lparr> calls := [ArticleExists 7, GetExistingFiles 7],
          stdout := [UpdatingModels 1 [''m1''], UpdatingTasks 2 [''discovery'', ''phonons''],
                     FileTypeFilter ''all'', FoundExistingArticle ''discovery'' 7,
                     NowUpdatingArticle ''collection-prefix/7'', FoundExistingFiles 0] \<rparr>,
      Raised AttributeError
        [(''task'', PNone), (''model_name'', PNone),
         (''models_to_update'', PNone), (''tasks_to_update'', PNone)])"
  by (simp add: run_defs spec_defs example_defs str_nat.simps)

subsection \<open>The three dictionaries of a run\<close>

lemma removeprefix_append [simp]: "removeprefix (p @ s) p = s"
  by (simp add: removeprefix_def)

lemma removeprefix_root [simp]: "removeprefix (r @ CHR ''/'' # s) (r @ ''/'') = s"
  using removeprefix_append[of "r @ ''/''" s] by simp

text \<open>The ways through the body of the file loop.\<close>

lemma process_file_cases:
  assumes "process_file fg cfg task m dry force aid existing (kp, rel) st = (s', e)"
  obtains
    (missing) "\<not> isfile st (ROOT cfg @ ''/'' @ rel)"
      "s' = print (TaskFileNotFound task (name m) (ROOT cfg @ ''/'' @ rel)) st" "e = None"
  | (dry) "isfile st (ROOT cfg @ ''/'' @ rel)" "dry" "s' = st" "e = None"
  | (hash_error) err where "isfile st (ROOT cfg @ ''/'' @ rel)" "\<not> dry" "\<not> force"
      "get_file_hash_and_size fg (ROOT cfg @ ''/'' @ rel) = Inl err"
      "s' = called (GetFileHashAndSize (ROOT cfg @ ''/'' @ rel)) st" "e = Some err"
  | (query_error) h sz err where "isfile st (ROOT cfg @ ''/'' @ rel)" "\<not> dry" "\<not> force"
      "get_file_hash_and_size fg (ROOT cfg @ ''/'' @ rel) = Inr (h, sz)"
      "file_exists_with_same_hash fg (remote st) aid rel h = Inl err"
      "s' = called (FileExistsWithSameHash aid rel h) (called (GetFileHashAndSize (ROOT cfg @ ''/'' @ rel)) st)"
      "e = Some err"
  | (matched) h sz fid where "isfile st (ROOT cfg @ ''/'' @ rel)" "\<not> dry" "\<not> force"
      "get_file_hash_and_size fg (ROOT cfg @ ''/'' @ rel) = Inr (h, sz)"
      "file_exists_with_same_hash fg (remote st) aid rel h = Inr (True, Some fid)"
      "skip_existing fg kp rel fid
         (called (FileExistsWithSameHash aid rel h) (called (GetFileHashAndSize (ROOT cfg @ ''/'' @ rel)) st))
       = (s', e)"
  | (unmatched) h sz ex fid where "isfile st (ROOT cfg @ ''/'' @ rel)" "\<not> dry" "\<not> force"
      "get_file_hash_and_size fg (ROOT cfg @ ''/'' @ rel) = Inr (h, sz)"
      "file_exists_with_same_hash fg (remote st) aid rel h = Inr (ex, fid)"
      "\<not> (ex \<and> fid \<noteq> None)"
      "upload_file fg False False aid existing kp (ROOT cfg @ ''/'' @ rel) rel
         (called (FileExistsWithSameHash aid rel h) (called (GetFileHashAndSize (ROOT cfg @ ''/'' @ rel)) st))
       = (s', e)"
  | (forced) "isfile st (ROOT cfg @ ''/'' @ rel)" "\<not> dry" "force"
      "upload_file fg False True aid existing kp (ROOT cfg @ ''/'' @ rel) rel st = (s', e)"
proof (cases "isfile st (ROOT cfg @ ''/'' @ rel)")
  case False
  then show ?thesis using assms missing by (simp add: process_file_def Let_def)
next
  case isf: True
  show ?thesis
  proof (cases "dry")
    case True
    then show ?thesis using assms isf dry by (simp add: process_file_def Let_def upload_file_def)
  next
    case nd: False
    show ?thesis
    proof (cases force)
      case True
      then show ?thesis using assms isf nd forced by (simp add: process_file_def Let_def)
    next
      case nf: False
      show ?thesis
      proof (cases "get_file_hash_and_size fg (ROOT cfg @ ''/'' @ rel)")
        case (Inl err)
        then show ?thesis using assms isf nd nf hash_error by (simp add: process_file_def Let_def)
      next
        case (Inr hs)
        obtain h sz where hs: "hs = (h, sz)" by (cases hs)
        show ?thesis
        proof (cases "file_exists_with_same_hash fg (remote st) aid rel h")
          case (Inl err)
          then show ?thesis using assms isf nd nf Inr hs query_error
            by (simp add: process_file_def Let_def)
        next
          case q: (Inr res)
          obtain ex fid where res: "res = (ex, fid)" by (cases res)
          show ?thesis
          proof (cases "ex \<and> fid \<noteq> None")
            case True
            then obtain i where "fid = Some i" "ex" by auto
            then show ?thesis using assms isf nd nf Inr hs q res matched[of h sz i]
              by (simp add: process_file_def Let_def)
          next
            case False
            then show ?thesis using assms isf nd nf Inr hs q res unmatched[of h sz ex fid]
              by (cases ex; cases fid) (simp_all add: process_file_def Let_def)
          qed
        qed
      qed
    qed
  qed
qed

lemma skip_existing_cases:
  assumes "skip_existing fg kp fn fid st = (s', e)"
  obtains
    (present) "map_of (metric_data st) (kp @ ''_url'') \<noteq> None"
      "s' = st\<lparr>skipped_files := AList.update fn (download_url fg fid) (skipped_files st)\<rparr>" "e = None"
  | (write_error) err where "map_of (metric_data st) (kp @ ''_url'') = None"
      "set_at (butlast (split_on CHR ''.'' (kp @ ''_url''))) (last (split_on CHR ''.'' (kp @ ''_url'')))
         (YStr (download_url fg fid)) (metric_data st) = Inl err"
      "s' = st\<lparr>skipped_files := AList.update fn (download_url fg fid) (skipped_files st)\<rparr>" "e = Some err"
  | (written) md where "map_of (metric_data st) (kp @ ''_url'') = None"
      "set_at (butlast (split_on CHR ''.'' (kp @ ''_url''))) (last (split_on CHR ''.'' (kp @ ''_url'')))
         (YStr (download_url fg fid)) (metric_data st) = Inr md"
      "s' = st\<lparr>skipped_files := AList.update fn (download_url fg fid) (skipped_files st), metric_data := md\<rparr>"
      "e = None"
  using assms
  by (auto simp: skip_existing_def Let_def split: if_splits sum.splits)

lemma upload_file_cases:
  assumes "upload_file fg False force aid existing kp fp fn st = (s', e)"
  obtains
    (upload_error) err where "upload_file_if_needed fg (remote st) aid fp fn force = Inl err"
      "s' = called (UploadFileIfNeeded aid fp fn force) st" "e = Some err"
  | (uploaded) fid was r err_or_md where
      "upload_file_if_needed fg (remote st) aid fp fn force = Inr ((fid, was), r)"
      "set_at (butlast (split_on CHR ''.'' kp)) (last (split_on CHR ''.'' kp) @ ''_url'')
         (YStr (download_url fg fid))  (metric_data st) = err_or_md"
      "s' = (if map_of existing fn \<noteq> None
             then (called (UploadFileIfNeeded aid fp fn force) st)
                    \<lparr>remote := r, updated_files := AList.update fn (download_url fg fid) (updated_files st),
                     metric_data := (case err_or_md of Inl err \<Rightarrow> metric_data st | Inr md \<Rightarrow> md)\<rparr>
             else (called (UploadFileIfNeeded aid fp fn force) st)
                    \<lparr>remote := r, new_files := AList.update fn (download_url fg fid) (new_files st),
                     metric_data := (case err_or_md of Inl err \<Rightarrow> metric_data st | Inr md \<Rightarrow> md)\<rparr>)"
      "e = (case err_or_md of Inl err \<Rightarrow> Some err | Inr md \<Rightarrow> None)"
  using assms
  by (auto simp: upload_file_def Let_def called_def split: if_splits sum.splits prod.splits)


lemma keys_Nil [simp]: "keys [] = {}"
  by (simp add: keys_def)

lemma keys_update [simp]: "keys (AList.update k v d) = insert k (keys d)"
  by (auto simp: keys_def AList.dom_update)



















lemma process_model_no_yaml:
  "\<not> isfile st (yaml_path m) \<Longrightarrow>
     process_model fg cfg task dry ft force aid existing m st
       = (print (MissingModelYaml (yaml_path m)) st, None)"
  by (simp add: process_model_def)

lemma process_model_bad_doc:
  "isfile st (yaml_path m) \<Longrightarrow> get_metric_data (yaml_docs st (yaml_path m)) task = Inl err \<Longrightarrow>
     process_model fg cfg task dry ft force aid existing m st = (st, Some err)"
  by (simp add: process_model_def)

lemma process_model_not_dict:
  "isfile st (yaml_path m) \<Longrightarrow> get_metric_data (yaml_docs st (yaml_path m)) task = Inr v \<Longrightarrow>
     \<forall>md. v \<noteq> YDict md \<Longrightarrow>
     process_model fg cfg task dry ft force aid existing m st = (st, None)"
  by (cases v) (simp_all add: process_model_def)

lemma process_model_dict:
  "isfile st (yaml_path m) \<Longrightarrow> get_metric_data (yaml_docs st (yaml_path m)) task = Inr (YDict md) \<Longrightarrow>
     for_each (process_file fg cfg task m dry force aid existing) (find_file_keys ft md [])
         (st\<lparr>metric_data := md\<rparr>) = (s1, r) \<Longrightarrow>
     process_model fg cfg task dry ft force aid existing m st
       = (case r of
            Some e \<Rightarrow> (s1, Some e)
          | None \<Rightarrow>
              if \<not> dry
              then (s1\<lparr>yaml_docs := (yaml_docs s1)
                         (yaml_path m := dumped_model_data (yaml_docs st (yaml_path m)) task (metric_data s1)),
                       writes := writes s1 @ [yaml_path m]\<rparr>, None)
              else (s1, None))"
  by (simp add: process_model_def Let_def split: option.splits)

lemma process_model_cases:
  assumes "process_model fg cfg task dry ft force aid existing m st = (s', e)"
  obtains
    (no_yaml) "\<not> isfile st (yaml_path m)" "s' = print (MissingModelYaml (yaml_path m)) st" "e = None"
  | (bad_doc) err where "isfile st (yaml_path m)"
      "get_metric_data (yaml_docs st (yaml_path m)) task = Inl err" "s' = st" "e = Some err"
  | (not_dict) v where "isfile st (yaml_path m)"
      "get_metric_data (yaml_docs st (yaml_path m)) task = Inr v" "\<And>md. v \<noteq> YDict md"
      "s' = st" "e = None"
  | (loop_error) md err where "isfile st (yaml_path m)"
      "get_metric_data (yaml_docs st (yaml_path m)) task = Inr (YDict md)"
      "for_each (process_file fg cfg task m dry force aid existing) (find_file_keys ft md [])
         (st\<lparr>metric_data := md\<rparr>) = (s', Some err)" "e = Some err"
  | (dry_done) md where "isfile st (yaml_path m)" "dry"
      "get_metric_data (yaml_docs st (yaml_path m)) task = Inr (YDict md)"
      "for_each (process_file fg cfg task m dry force aid existing) (find_file_keys ft md [])
         (st\<lparr>metric_data := md\<rparr>) = (s', None)" "e = None"
  | (written) md s1 where "isfile st (yaml_path m)" "\<not> dry"
      "get_metric_data (yaml_docs st (yaml_path m)) task = Inr (YDict md)"
      "for_each (process_file fg cfg task m dry force aid existing) (find_file_keys ft md [])
         (st\<lparr>metric_data := md\<rparr>) = (s1, None)"
      "s' = s1\<lparr>yaml_docs := (yaml_docs s1)
                 (yaml_path m := dumped_model_data (yaml_docs st (yaml_path m)) task (metric_data s1)),
               writes := writes s1 @ [yaml_path m]\<rparr>"
      "e = None"
proof (cases "isfile st (yaml_path m)")
  case False
  show ?thesis
    by (rule no_yaml) (use assms False process_model_no_yaml[OF False] in auto)
next
  case isf: True
  show ?thesis
  proof (cases "get_metric_data (yaml_docs st (yaml_path m)) task")
    case (Inl err)
    show ?thesis
      by (rule bad_doc[OF isf Inl]) (use assms process_model_bad_doc[OF isf Inl] in auto)
  next
    case (Inr v)
    show ?thesis
    proof (cases "\<exists>md. v = YDict md")
      case False
      then have nd: "\<forall>md. v \<noteq> YDict md" by blast
      show ?thesis
        by (rule not_dict[OF isf Inr]) (use assms nd process_model_not_dict[OF isf Inr nd] in auto)
    next
      case True
      then obtain md where v: "v = YDict md" by blast
      note g = Inr[unfolded v]
      obtain s1 r where l: "for_each (process_file fg cfg task m dry force aid existing)
          (find_file_keys ft md []) (st\<lparr>metric_data := md\<rparr>) = (s1, r)"
        by (cases "for_each (process_file fg cfg task m dry force aid existing)
          (find_file_keys ft md []) (st\<lparr>metric_data := md\<rparr>)")
      note eq = process_model_dict[OF isf g l]
      show ?thesis
      proof (cases r)
        case (Some err)
        have "s' = s1" "e = Some err" using assms eq Some by auto
        then show ?thesis using loop_error[OF isf g] l Some by blast
      next
        case None
        show ?thesis
        proof (cases dry)
          case True
          have "s' = s1" "e = None" using assms eq None True by auto
          then show ?thesis using dry_done[OF isf True g] l None by blast
        next
          case False
          have "s' = s1\<lparr>yaml_docs := (yaml_docs s1)
                 (yaml_path m := dumped_model_data (yaml_docs st (yaml_path m)) task (metric_data s1)),
               writes := writes s1 @ [yaml_path m]\<rparr>" "e = None"
            using assms eq None False by auto
          then show ?thesis using written[OF isf False g] l None by blast
        qed
      qed
    qed
  qed
qed










lemma models_start_simps [simp]:
  "remote (models_start fg dry aid existing st1) = remote st1"
  "isfile (models_start fg dry aid existing st1) = isfile st1"
  "yaml_docs (models_start fg dry aid existing st1) = yaml_docs st1"
  "writes (models_start fg dry aid existing st1) = writes st1"
  "calls (models_start fg dry aid existing st1) = calls st1 @ [GetExistingFiles aid]"
  "skipped_files (models_start fg dry aid existing st1) = []"
  "updated_files (models_start fg dry aid existing st1) = []"
  "new_files (models_start fg dry aid existing st1) = []"
  by (simp_all add: models_start_def Let_def print_def called_def)

lemma update_one_completes:
  assumes "update_one_modeling_task_article fg cfg task ms dry ft force st = (s', None)"
  obtains st1 aid existing s7 where
    "resolve_article fg cfg task dry st = (st1, Inr aid)"
    "get_existing_files fg (remote st1) aid = Inr existing"
    "for_each (process_model fg cfg task dry ft force aid existing) ms
       (models_start fg dry aid existing st1) = (s7, None)"
    "s' = print_summary s7"
proof -
  obtain st1 r where ra: "resolve_article fg cfg task dry st = (st1, r)"
    by (cases "resolve_article fg cfg task dry st")
  obtain aid where r: "r = Inr aid"
    using assms ra by (cases r) (auto simp: update_one_modeling_task_article_def)
  have rem: "remote (called c (if dry then print DryRunNotice (print x st1) else print x st1)) = remote st1" for c x
    by (simp add: called_def print_def)
  obtain existing where ex: "get_existing_files fg (remote st1) aid = Inr existing"
    using assms ra r
    by (cases "get_existing_files fg (remote st1) aid")
       (auto simp: update_one_modeling_task_article_def Let_def rem)
  obtain s7 q where l: "for_each (process_model fg cfg task dry ft force aid existing) ms
       (models_start fg dry aid existing st1) = (s7, q)"
    by (cases "for_each (process_model fg cfg task dry ft force aid existing) ms
       (models_start fg dry aid existing st1)")
  have eq: "update_one_modeling_task_article fg cfg task ms dry ft force st
     = (case q of Some e \<Rightarrow> (s7, Some e) | None \<Rightarrow> (print_summary s7, None))"
    using ra r ex l
    by (simp add: update_one_modeling_task_article_def Let_def rem models_start_def split: option.splits)
  have "q = None" "s' = print_summary s7" using assms eq by (cases q; simp)+
  then show ?thesis using that ra r ex l by blast
qed

lemma print_summary_simps [simp]:
  "skipped_files (print_summary s) = skipped_files s"
  "updated_files (print_summary s) = updated_files s"
  "new_files (print_summary s) = new_files s"
  "calls (print_summary s) = calls s"
  "remote (print_summary s) = remote s"
  "yaml_docs (print_summary s) = yaml_docs s"
  "isfile (print_summary s) = isfile s"
  "writes (print_summary s) = writes s"
  by (simp_all add: print_summary_def)






subsection \<open>A second run\<close>

lemma split_on_not_Nil [simp]: "split_on c s \<noteq> []"
  by (induction s) (auto split: list.splits)

lemma join_split_on: "join_on c (split_on c s) = s"
proof (induction s)
  case Nil
  then show ?case by simp
next
  case (Cons x xs)
  obtain w ws where sp: "split_on c xs = w # ws" by (cases "split_on c xs") auto
  show ?case using Cons sp by (cases ws) auto
qed

lemma split_on_inj: "split_on c s = split_on c t \<Longrightarrow> s = t"
  by (metis join_split_on)

lemma split_on_append:
  "c \<notin> set t \<Longrightarrow> split_on c (s @ t) = butlast (split_on c s) @ [last (split_on c s) @ t]"
proof (induction s)
  case Nil
  then show ?case by (induction t) (auto split: list.splits)
next
  case (Cons x xs)
  obtain w ws where sp: "split_on c xs = w # ws" by (cases "split_on c xs") auto
  show ?case using Cons sp by (auto split: list.splits)
qed

lemma slot_eq:
  "butlast (split_on CHR ''.'' (kp @ ''_url'')) = butlast (split_on CHR ''.'' kp)
   \<and> last (split_on CHR ''.'' (kp @ ''_url'')) = last (split_on CHR ''.'' kp) @ ''_url''"
  by (simp add: split_on_append)

lemma slot_inj:
  assumes "butlast (split_on CHR ''.'' (kp @ ''_url'')) = butlast (split_on CHR ''.'' (kp' @ ''_url''))"
    and "last (split_on CHR ''.'' (kp @ ''_url'')) = last (split_on CHR ''.'' (kp' @ ''_url''))"
  shows "kp = kp'"
proof -
  have "split_on CHR ''.'' (kp @ ''_url'') = split_on CHR ''.'' (kp' @ ''_url'')"
    using assms by (metis append_butlast_last_id split_on_not_Nil)
  then show ?thesis using split_on_inj by fastforce
qed

lemma last_slot_endswith: "endswith (last (split_on CHR ''.'' (kp @ ''_url''))) ''_url''"
  by (simp add: split_on_append endswith_iff_suffix suffix_def)

lemma url_not_file: "endswith l ''_url'' \<Longrightarrow> \<not> endswith l ''_file''"
  unfolding endswith_iff_suffix suffix_def by auto

lemma no_dict_url_lookup:
  "no_dict_url d \<Longrightarrow> map_of d k = Some (YDict x) \<Longrightarrow> \<not> endswith k ''_url'' \<and> no_dict_url x"
  by (induction d rule: no_dict_url.induct) (auto split: if_splits)

lemma no_dict_url_update_leaf:
  "no_dict_url d \<Longrightarrow> no_dict_url (AList.update k (YStr v) d)"
  by (induction d rule: no_dict_url.induct) auto

lemma no_dict_url_update_dict:
  "no_dict_url d \<Longrightarrow> \<not> endswith k ''_url'' \<Longrightarrow> no_dict_url x
     \<Longrightarrow> no_dict_url (AList.update k (YDict x) d)"
  by (induction d rule: no_dict_url.induct) auto

lemma no_dict_url_set_at:
  "set_at ps l (YStr v) d = Inr d' \<Longrightarrow> no_dict_url d \<Longrightarrow> no_dict_url d'"
proof (induction ps arbitrary: d d')
  case Nil
  then show ?case by (auto simp: no_dict_url_update_leaf)
next
  case (Cons p ps)
  from Cons.prems(1) obtain d0 d1 where
    m: "map_of d p = Some (YDict d0)" and s: "set_at ps l (YStr v) d0 = Inr d1"
    and d': "d' = AList.update p (YDict d1) d"
    by (auto split: option.splits yaml.splits sum.splits)
  from no_dict_url_lookup[OF Cons.prems(2) m] have "\<not> endswith p ''_url''" "no_dict_url d0" by auto
  then show ?case using Cons.IH[OF s] Cons.prems(2) d' by (simp add: no_dict_url_update_dict)
qed

text \<open>The walk does not see a locator being written.\<close>

lemma walk_update_leaf:
  assumes "\<not> endswith l ''_file''" "\<forall>x. map_of d l \<noteq> Some (YDict x)"
  shows "find_file_keys_loop ft pre (AList.update l (YStr v) d) r = find_file_keys_loop ft pre d r"
  using assms
proof (induction ft pre d r rule: find_file_keys_loop.induct)
  case (1 file_type pre result)
  then show ?case by simp
next
  case (2 file_type pre key d rest result)
  then show ?case by (auto split: if_splits)
next
  case (3 file_type pre key s rest result)
  then show ?case by (auto split: if_splits)
qed (auto split: if_splits)

lemma walk_update_dict:
  assumes "map_of d p = Some (YDict d0)"
    "\<And>pre r. find_file_keys_loop ft pre d1 r = find_file_keys_loop ft pre d0 r"
  shows "find_file_keys_loop ft pre (AList.update p (YDict d1) d) r = find_file_keys_loop ft pre d r"
  using assms(1)
proof (induction d arbitrary: r)
  case Nil
  then show ?case by simp
next
  case (Cons kv rest)
  obtain k x where kv: "kv = (k, x)" by (cases kv)
  show ?case
  proof (cases "k = p")
    case True
    then have "x = YDict d0" using Cons.prems kv by simp
    then show ?thesis using True kv assms(2) by simp
  next
    case False
    then have "map_of rest p = Some (YDict d0)" using Cons.prems kv by simp
    from Cons.IH[OF this] show ?thesis using False kv by (cases x) simp_all
  qed
qed

lemma walk_set_at:
  "set_at ps l (YStr v) d = Inr d' \<Longrightarrow> no_dict_url d \<Longrightarrow> endswith l ''_url''
     \<Longrightarrow> find_file_keys_loop ft pre d' r = find_file_keys_loop ft pre d r"
proof (induction ps arbitrary: d d' pre r)
  case Nil
  have "\<forall>x. map_of d l \<noteq> Some (YDict x)"
    using no_dict_url_lookup[OF Nil.prems(2)] Nil.prems(3) by blast
  then show ?case using Nil by (auto simp: walk_update_leaf url_not_file)
next
  case (Cons p ps)
  from Cons.prems(1) obtain d0 d1 where
    m: "map_of d p = Some (YDict d0)" and s: "set_at ps l (YStr v) d0 = Inr d1"
    and d': "d' = AList.update p (YDict d1) d"
    by (auto split: option.splits yaml.splits sum.splits)
  from no_dict_url_lookup[OF Cons.prems(2) m] have n0: "no_dict_url d0" by auto
  have "\<And>pre r. find_file_keys_loop ft pre d1 r = find_file_keys_loop ft pre d0 r"
    by (rule Cons.IH[OF s n0 Cons.prems(3)])
  then show ?case unfolding d' by (rule walk_update_dict[OF m])
qed

lemma find_file_keys_set_at:
  "set_at ps l (YStr v) d = Inr d' \<Longrightarrow> no_dict_url d \<Longrightarrow> endswith l ''_url''
     \<Longrightarrow> find_file_keys ft d' pre = find_file_keys ft d pre"
  by (simp add: find_file_keys_def walk_set_at)

text \<open>Reading a slot after a write.\<close>

lemma get_at_set_at_same:
  "set_at ps l v d = Inr d' \<Longrightarrow> get_at ps l d' = Some v"
proof (induction ps arbitrary: d d')
  case Nil
  then show ?case by (auto simp: AList.update_conv')
next
  case (Cons p ps)
  from Cons.prems(1) obtain d0 d1 where
    m: "map_of d p = Some (YDict d0)" and s: "set_at ps l v d0 = Inr d1"
    and d': "d' = AList.update p (YDict d1) d"
    by (auto split: option.splits yaml.splits sum.splits)
  show ?case using Cons.IH[OF s] d' by (simp add: AList.update_conv')
qed

lemma set_at_triv:
  "get_at ps l d = Some v \<Longrightarrow> set_at ps l v d = Inr d"
proof (induction ps arbitrary: d)
  case Nil
  then show ?case by (simp add: AList.update_triv)
next
  case (Cons p ps)
  from Cons.prems obtain d0 where
    m: "map_of d p = Some (YDict d0)" and g: "get_at ps l d0 = Some v"
    by (auto split: option.splits yaml.splits)
  show ?case using Cons.IH[OF g] m by (simp add: AList.update_triv)
qed

lemma set_at_keeps_keys:
  "set_at ps l v d = Inr d' \<Longrightarrow> map_of d k \<noteq> None \<Longrightarrow> map_of d' k \<noteq> None"
  by (cases ps) (auto simp: AList.update_conv' split: option.splits yaml.splits sum.splits)

lemma get_at_set_at_other:
  "set_at ps l (YStr v) d = Inr d' \<Longrightarrow> no_dict_url d \<Longrightarrow> endswith l ''_url''
     \<Longrightarrow> get_at qs l' d = Some (YStr u) \<Longrightarrow> (qs, l') \<noteq> (ps, l)
     \<Longrightarrow> get_at qs l' d' = Some (YStr u)"
proof (induction ps arbitrary: d d' qs)
  case Nil
  have nd: "\<forall>x. map_of d l \<noteq> Some (YDict x)"
    using no_dict_url_lookup[OF Nil.prems(2)] Nil.prems(3) by blast
  have d': "d' = AList.update l (YStr v) d" using Nil.prems(1) by simp
  show ?case
  proof (cases qs)
    case Nil': Nil
    then show ?thesis using Nil.prems(4,5) d' by (auto simp: AList.update_conv')
  next
    case (Cons q qs')
    then show ?thesis using Nil.prems(4) nd d'
      by (cases "q = l") (auto simp: AList.update_conv' split: option.splits yaml.splits)
  qed
next
  case (Cons p ps)
  from Cons.prems(1) obtain d0 d1 where
    m: "map_of d p = Some (YDict d0)" and s: "set_at ps l (YStr v) d0 = Inr d1"
    and d': "d' = AList.update p (YDict d1) d"
    by (auto split: option.splits yaml.splits sum.splits)
  from no_dict_url_lookup[OF Cons.prems(2) m] have n0: "no_dict_url d0" by auto
  show ?case
  proof (cases qs)
    case Nil
    then show ?thesis using Cons.prems(4) m d' by (auto simp: AList.update_conv')
  next
    case q: (Cons q qs')
    show ?thesis
    proof (cases "q = p")
      case True
      have g: "get_at qs' l' d0 = Some (YStr u)" using Cons.prems(4) q True m by simp
      have ne: "(qs', l') \<noteq> (ps, l)" using Cons.prems(5) q True by auto
      from Cons.IH[OF s n0 Cons.prems(3) g ne]
      show ?thesis using q True d' by (simp add: AList.update_conv')
    next
      case False
      then show ?thesis using Cons.prems(4) q d'
        by (auto simp: AList.update_conv' split: option.splits yaml.splits)
    qed
  qed
qed

lemma download_url_spec [simp]: "download_url (spec_figshare ids ident) i = spec_url i"
  by (simp add: download_url_def spec_figshare_def spec_url_def)

lemma spec_fields [simp]:
  "get_file_hash_and_size (spec_figshare ids ident) path = Inr (ident path)"
  "file_exists_with_same_hash (spec_figshare ids ident) = spec_file_exists_with_same_hash"
  "upload_file_if_needed (spec_figshare ids ident) = spec_upload_file_if_needed ident"
  "get_existing_files (spec_figshare ids ident) = spec_get_existing_files"
  "article_exists (spec_figshare ids ident) = spec_article_exists"
  "ARTICLE_IDS (spec_figshare ids ident) = ids"
  by (simp_all add: spec_figshare_def)

lemma query_held:
  "held ident cfg r aid rel = Some i \<Longrightarrow>
     spec_file_exists_with_same_hash r aid rel (fst (ident (ROOT cfg @ ''/'' @ rel))) = Inr (True, Some i)"
  by (auto simp: held_def spec_file_exists_with_same_hash_def split: option.splits if_splits)

lemma query_matched:
  "spec_file_exists_with_same_hash r aid rel (fst (ident (ROOT cfg @ ''/'' @ rel))) = Inr (True, Some i)
     \<Longrightarrow> held ident cfg r aid rel = Some i"
  by (auto simp: held_def spec_file_exists_with_same_hash_def split: option.splits if_splits)

lemma query_unmatched:
  "spec_file_exists_with_same_hash r aid rel (fst (ident (ROOT cfg @ ''/'' @ rel))) = Inr (ex, fid)
     \<Longrightarrow> \<not> (ex \<and> fid \<noteq> None) \<Longrightarrow> held ident cfg r aid rel = None"
  by (auto simp: held_def spec_file_exists_with_same_hash_def split: option.splits if_splits)

lemma upload_held:
  assumes "spec_upload_file_if_needed ident r aid (ROOT cfg @ ''/'' @ rel) rel force = Inr ((fid, was), r')"
  shows "held ident cfg r' aid rel = Some fid
       \<and> (\<forall>rel0. rel0 \<noteq> rel \<longrightarrow> held ident cfg r' aid rel0 = held ident cfg r aid rel0)
       \<and> map_of (articles r') aid \<noteq> None"
proof -
  from assms obtain files where f: "map_of (articles r) aid = Some files"
    by (auto simp: spec_upload_file_if_needed_def split: option.splits)
  have r': "r' = r\<lparr>articles := AList.update aid
                      (AList.update rel (next_id r, fst (ident (ROOT cfg @ ''/'' @ rel))) files)
                      (articles r),
                  next_id := Suc (next_id r)\<rparr>" and fid: "fid = next_id r"
    using assms f by (auto simp: spec_upload_file_if_needed_def)
  have a: "map_of (articles r') aid
      = Some (AList.update rel (next_id r, fst (ident (ROOT cfg @ ''/'' @ rel))) files)"
    unfolding r' by (simp add: AList.update_conv')
  show ?thesis
    unfolding held_def a using f fid by (simp add: AList.update_conv')
qed

text \<open>A settled file reference is recorded as skipped, and nothing else changes.\<close>

lemma process_file_settled:
  assumes "held ident cfg (remote st) aid rel = Some i" "slot_ok (metric_data st) kp i"
    "isfile st (ROOT cfg @ ''/'' @ rel)"
  shows "process_file (spec_figshare ids ident) cfg task m False False aid existing (kp, rel) st
     = (st\<lparr>calls := calls st @ [GetFileHashAndSize (ROOT cfg @ ''/'' @ rel),
                                  FileExistsWithSameHash aid rel (fst (ident (ROOT cfg @ ''/'' @ rel)))],
           skipped_files := AList.update rel (spec_url i) (skipped_files st)\<rparr>, None)"
proof -
  obtain h sz where id: "ident (ROOT cfg @ ''/'' @ rel) = (h, sz)" by (cases "ident (ROOT cfg @ ''/'' @ rel)")
  have q: "spec_file_exists_with_same_hash (remote st) aid rel h = Inr (True, Some i)"
    using query_held[OF assms(1)] id by simp
  let ?st2 = "called (FileExistsWithSameHash aid rel h) (called (GetFileHashAndSize (ROOT cfg @ ''/'' @ rel)) st)"
  have sk: "skip_existing (spec_figshare ids ident) kp rel i ?st2
      = (?st2\<lparr>skipped_files := AList.update rel (spec_url i) (skipped_files st)\<rparr>, None)"
  proof (cases "map_of (metric_data st) (kp @ ''_url'') = None")
    case True
    then have "get_at (butlast (split_on CHR ''.'' (kp @ ''_url''))) (last (split_on CHR ''.'' (kp @ ''_url'')))
           (metric_data st) = Some (YStr (spec_url i))"
      using assms(2) by (simp add: slot_ok_def)
    from set_at_triv[OF this] True show ?thesis
      by (simp add: skip_existing_def Let_def called_def)
  next
    case False
    then show ?thesis by (auto simp: skip_existing_def Let_def called_def)
  qed
  have "process_file (spec_figshare ids ident) cfg task m False False aid existing (kp, rel) st
      = skip_existing (spec_figshare ids ident) kp rel i ?st2"
    using assms(3) id q by (simp add: process_file_def Let_def)
  then show ?thesis using sk id by (simp add: called_def)
qed

lemma process_file_missing:
  "\<not> isfile st (ROOT cfg @ ''/'' @ rel) \<Longrightarrow>
     process_file fg cfg task m dry force aid existing (kp, rel) st
       = (print (TaskFileNotFound task (name m) (ROOT cfg @ ''/'' @ rel)) st, None)"
  by (simp add: process_file_def Let_def)

lemma files_loop_settled:
  assumes "list_all (file_settled ident cfg aid (remote st) (isfile st) (metric_data st)) kvs"
  shows "\<exists>s'. for_each (process_file (spec_figshare ids ident) cfg task m False False aid existing) kvs st
            = (s', None)
          \<and> quiet st s' \<and> metric_data s' = metric_data st \<and> writes s' = writes st
          \<and> keys (skipped_files s')
              = keys (skipped_files st)
                \<union> {rel. \<exists>kp. (kp, rel) \<in> set kvs \<and> isfile st (ROOT cfg @ ''/'' @ rel)}"
  using assms
proof (induction kvs arbitrary: st)
  case Nil
  then show ?case by (simp add: quiet_def)
next
  case (Cons kv kvs)
  obtain kp rel where kv: "kv = (kp, rel)" by (cases kv)
  let ?body = "process_file (spec_figshare ids ident) cfg task m False False aid existing"
  have "\<exists>t. ?body kv st = (t, None) \<and> quiet st t \<and> metric_data t = metric_data st
        \<and> writes t = writes st
        \<and> keys (skipped_files t)
            = keys (skipped_files st) \<union> (if isfile st (ROOT cfg @ ''/'' @ rel) then {rel} else {})"
  proof (cases "isfile st (ROOT cfg @ ''/'' @ rel)")
    case True
    then obtain i where h: "held ident cfg (remote st) aid rel = Some i"
      and so: "slot_ok (metric_data st) kp i"
      using Cons.prems kv by (auto simp: file_settled_def split: option.splits)
    show ?thesis
      unfolding kv process_file_settled[OF h so True] using True by (simp add: quiet_def)
  next
    case False
    show ?thesis
      unfolding kv process_file_missing[OF False] using False by (simp add: quiet_def print_def)
  qed
  then obtain t where b: "?body kv st = (t, None)" and qt: "quiet st t"
    and mt: "metric_data t = metric_data st" and wt: "writes t = writes st"
    and kt: "keys (skipped_files t)
            = keys (skipped_files st) \<union> (if isfile st (ROOT cfg @ ''/'' @ rel) then {rel} else {})"
    by blast
  have "list_all (file_settled ident cfg aid (remote t) (isfile t) (metric_data t)) kvs"
    using Cons.prems qt mt by (simp add: quiet_def)
  from Cons.IH[OF this] obtain s' where
    l: "for_each ?body kvs t = (s', None)" and qs: "quiet t s'"
    and ms: "metric_data s' = metric_data t" and ws: "writes s' = writes t"
    and ks: "keys (skipped_files s')
              = keys (skipped_files t)
                \<union> {rel. \<exists>kp. (kp, rel) \<in> set kvs \<and> isfile t (ROOT cfg @ ''/'' @ rel)}"
    by blast
  have "for_each ?body (kv # kvs) st = (s', None)" using b l by simp
  moreover have "quiet st s'" using qt qs by (simp add: quiet_def)
  moreover have "keys (skipped_files s')
              = keys (skipped_files st)
                \<union> {rel. \<exists>kp. (kp, rel) \<in> set (kv # kvs) \<and> isfile st (ROOT cfg @ ''/'' @ rel)}"
    using ks kt qt kv by (auto simp: quiet_def)
  ultimately show ?case using ms mt ws wt by auto
qed

lemma dumped_model_data_same:
  "get_metric_data doc task = Inr (YDict md) \<Longrightarrow> dumped_model_data doc task md = doc"
  by (auto simp: get_metric_data_def dumped_model_data_def AList.update_triv
      split: yaml.splits option.splits)

lemma discovered_files:
  "set (map snd (filter (\<lambda>kv. isf (ROOT cfg @ ''/'' @ snd kv)) kvs))
     = {rel. \<exists>kp. (kp, rel) \<in> set kvs \<and> isf (ROOT cfg @ ''/'' @ rel)}"
  by force

lemma process_model_settled:
  assumes "model_settled ident cfg task aid ft st (yaml_path m)"
  shows "\<exists>s'. process_model (spec_figshare ids ident) cfg task False ft False aid existing m st
            = (s', None)
          \<and> quiet st s'
          \<and> keys (skipped_files s') = keys (skipped_files st) \<union> discovered cfg task ft st (yaml_path m)"
proof (cases "isfile st (yaml_path m)")
  case False
  then show ?thesis
    by (simp add: process_model_no_yaml quiet_def print_def discovered_def)
next
  case isf: True
  show ?thesis
  proof (cases "get_metric_data (yaml_docs st (yaml_path m)) task")
    case (Inl e)
    then show ?thesis using assms isf by (simp add: model_settled_def)
  next
    case (Inr v)
    show ?thesis
    proof (cases "\<exists>md. v = YDict md")
      case False
      then have nd: "\<forall>md. v \<noteq> YDict md" by blast
      have "discovered cfg task ft st (yaml_path m) = {}"
        using isf Inr nd by (cases v) (simp_all add: discovered_def)
      then show ?thesis
        using process_model_not_dict[OF isf Inr nd] by (simp add: quiet_def)
    next
      case True
      then obtain md where v: "v = YDict md" by blast
      note g = Inr[unfolded v]
      let ?st0 = "st\<lparr>metric_data := md\<rparr>"
      have "list_all (file_settled ident cfg aid (remote ?st0) (isfile ?st0) (metric_data ?st0))
              (find_file_keys ft md [])"
        using assms isf g by (simp add: model_settled_def tree_settled_def)
      from files_loop_settled[OF this, where ids=ids and task=task and m=m and existing=existing] obtain s1 where
        l: "for_each (process_file (spec_figshare ids ident) cfg task m False False aid existing)
              (find_file_keys ft md []) ?st0 = (s1, None)"
        and q: "quiet ?st0 s1" and md1: "metric_data s1 = md" and w: "writes s1 = writes st"
        and k: "keys (skipped_files s1)
              = keys (skipped_files st)
                \<union> {rel. \<exists>kp. (kp, rel) \<in> set (find_file_keys ft md []) \<and> isfile st (ROOT cfg @ ''/'' @ rel)}"
        by auto
      have d: "dumped_model_data (yaml_docs st (yaml_path m)) task (metric_data s1)
          = yaml_docs st (yaml_path m)"
        using dumped_model_data_same[OF g] md1 by simp
      have y: "yaml_docs s1 = yaml_docs st" using q by (simp add: quiet_def)
      have "(yaml_docs s1)(yaml_path m := yaml_docs st (yaml_path m)) = yaml_docs st"
        unfolding y by (rule fun_upd_triv)
      moreover have "keys (skipped_files s1)
              = keys (skipped_files st)
                \<union> set (map snd (filter (\<lambda>kv. isfile st (ROOT cfg @ ''/'' @ snd kv))
                                  (find_file_keys ft md [])))"
        unfolding discovered_files by (rule k)
      ultimately show ?thesis
        using process_model_dict[OF isf g l] d q isf g
        by (simp add: quiet_def discovered_def)
    qed
  qed
qed

lemma model_settled_quiet:
  assumes "quiet st s"
  shows "model_settled ident cfg task aid ft s p = model_settled ident cfg task aid ft st p"
proof -
  have e: "remote s = remote st" "isfile s = isfile st" "yaml_docs s = yaml_docs st"
    using assms by (simp_all add: quiet_def)
  show ?thesis unfolding model_settled_def e by (rule refl)
qed

lemma discovered_quiet:
  assumes "quiet st s"
  shows "discovered cfg task ft s p = discovered cfg task ft st p"
proof -
  have e: "isfile s = isfile st" "yaml_docs s = yaml_docs st"
    using assms by (simp_all add: quiet_def)
  show ?thesis unfolding discovered_def e by (rule refl)
qed

lemma models_loop_settled:
  assumes "list_all (\<lambda>m. model_settled ident cfg task aid ft st (yaml_path m)) ms"
  shows "\<exists>s'. for_each (process_model (spec_figshare ids ident) cfg task False ft False aid existing) ms st
            = (s', None)
          \<and> quiet st s'
          \<and> keys (skipped_files s')
              = keys (skipped_files st) \<union> (\<Union>m\<in>set ms. discovered cfg task ft st (yaml_path m))"
  using assms
proof (induction ms arbitrary: st)
  case Nil
  then show ?case by (simp add: quiet_def)
next
  case (Cons m ms)
  let ?body = "process_model (spec_figshare ids ident) cfg task False ft False aid existing"
  from Cons.prems have "model_settled ident cfg task aid ft st (yaml_path m)" by simp
  from process_model_settled[OF this, where ids=ids and existing=existing] obtain t where
    b: "?body m st = (t, None)" and qt: "quiet st t"
    and kt: "keys (skipped_files t) = keys (skipped_files st) \<union> discovered cfg task ft st (yaml_path m)"
    by blast
  have "list_all (\<lambda>m. model_settled ident cfg task aid ft t (yaml_path m)) ms"
    using Cons.prems model_settled_quiet[OF qt] by simp
  from Cons.IH[OF this] obtain s' where
    l: "for_each ?body ms t = (s', None)" and qs: "quiet t s'"
    and ks: "keys (skipped_files s')
              = keys (skipped_files t) \<union> (\<Union>m\<in>set ms. discovered cfg task ft t (yaml_path m))"
    by blast
  have "for_each ?body (m # ms) st = (s', None)" using b l by simp
  moreover have "quiet st s'" using qt qs by (simp add: quiet_def)
  moreover have "keys (skipped_files s')
              = keys (skipped_files st) \<union> (\<Union>m\<in>set (m # ms). discovered cfg task ft st (yaml_path m))"
    using ks kt discovered_quiet[OF qt] by auto
  ultimately show ?case by blast
qed

lemma slot_ok_alt:
  "slot_ok md kp i
     = (map_of md (kp @ ''_url'') \<noteq> None \<or> get_at (slot_parts kp) (slot_last kp) md = Some (YStr (spec_url i)))"
  by (simp add: slot_ok_def slot_parts_def slot_last_def)

lemma slot_upload:
  "butlast (split_on CHR ''.'' kp) = slot_parts kp"
  "last (split_on CHR ''.'' kp) @ ''_url'' = slot_last kp"
  using slot_eq[of kp] by (simp_all add: slot_parts_def slot_last_def)

lemma slot_distinct: "kp0 \<noteq> kp \<Longrightarrow> (slot_parts kp0, slot_last kp0) \<noteq> (slot_parts kp, slot_last kp)"
  using slot_inj[of kp0 kp] by (auto simp: slot_parts_def slot_last_def)

lemma slot_last_url: "endswith (slot_last kp) ''_url''"
  by (simp add: slot_last_def last_slot_endswith)

lemma process_file_first_effect:
  assumes "process_file (spec_figshare ids ident) cfg task m False False aid existing (kp, rel) st
            = (t, None)"
  shows "first_effect ident cfg aid kp rel st t"
  using assms
proof (cases rule: process_file_cases)
  case missing
  then show ?thesis by (simp add: first_effect_def print_def)
next
  case (matched h sz fid)
  have h: "h = fst (ident (ROOT cfg @ ''/'' @ rel))" using matched(4) by simp
  have hd: "held ident cfg (remote st) aid rel = Some fid"
    using matched(5) unfolding h by (simp add: query_matched)
  from matched(6) show ?thesis
  proof (cases rule: skip_existing_cases)
    case present
    then show ?thesis using hd by (simp add: first_effect_def called_def)
  next
    case (written md)
    then show ?thesis using hd
      by (simp add: first_effect_def called_def slot_parts_def slot_last_def)
  qed simp
next
  case (unmatched h sz ex fid)
  from unmatched(7) show ?thesis
  proof (cases rule: upload_file_cases)
    case (uploaded fid' was r err_or_md)
    from uploaded(4) obtain md where md: "err_or_md = Inr md" by (cases err_or_md) auto
    have up: "spec_upload_file_if_needed ident (remote st) aid (ROOT cfg @ ''/'' @ rel) rel False
        = Inr ((fid', was), r)"
      using uploaded(1) by (simp add: called_def)
    have h: "h = fst (ident (ROOT cfg @ ''/'' @ rel))" using unmatched(4) by simp
    have none: "held ident cfg (remote st) aid rel = None"
      using query_unmatched[of "remote st" aid rel ident cfg ex fid] unmatched(5,6) h by simp
    note uh = upload_held[OF up]
    have mono: "\<forall>rel0 j. held ident cfg (remote st) aid rel0 = Some j
                  \<longrightarrow> held ident cfg r aid rel0 = Some j"
      using uh none by (metis option.distinct(1))
    have rt: "remote t = r" "metric_data t = md" "isfile t = isfile st" "yaml_docs t = yaml_docs st"
      "writes t = writes st"
      using uploaded(3) md by (simp_all add: called_def split: if_splits)
    have sa: "set_at (slot_parts kp) (slot_last kp) (YStr (spec_url fid')) (metric_data st) = Inr md"
      using uploaded(2) md by (simp add: slot_upload called_def)
    show ?thesis unfolding first_effect_def rt using uh mono sa by auto
  qed simp
qed simp_all

lemma first_effect_tree:
  assumes "first_effect ident cfg aid kp rel st t" "no_dict_url (metric_data st)"
  shows "no_dict_url (metric_data t)
       \<and> find_file_keys ft (metric_data t) pre = find_file_keys ft (metric_data st) pre"
proof -
  from assms(1) consider
    (same) "metric_data t = metric_data st"
    | (set) i where "set_at (slot_parts kp) (slot_last kp) (YStr (spec_url i)) (metric_data st)
                       = Inr (metric_data t)"
    unfolding first_effect_def by blast
  then show ?thesis
  proof cases
    case same
    then show ?thesis using assms(2) by simp
  next
    case (set i)
    show ?thesis
      using no_dict_url_set_at[OF set assms(2)]
        find_file_keys_set_at[OF set assms(2) slot_last_url] by simp
  qed
qed

lemma first_effect_settles:
  assumes "first_effect ident cfg aid kp rel st t"
  shows "file_settled ident cfg aid (remote t) (isfile t) (metric_data t) (kp, rel)"
proof (cases "isfile st (ROOT cfg @ ''/'' @ rel)")
  case False
  then show ?thesis using assms by (simp add: first_effect_def file_settled_def)
next
  case True
  with assms obtain i where h: "held ident cfg (remote t) aid rel = Some i"
    and c: "(metric_data t = metric_data st \<and> map_of (metric_data st) (kp @ ''_url'') \<noteq> None)
          \<or> set_at (slot_parts kp) (slot_last kp) (YStr (spec_url i)) (metric_data st)
               = Inr (metric_data t)"
    unfolding first_effect_def by blast
  have "slot_ok (metric_data t) kp i"
    using c get_at_set_at_same[of "slot_parts kp" "slot_last kp" "YStr (spec_url i)" "metric_data st" "metric_data t"]
    by (auto simp: slot_ok_alt)
  then show ?thesis using h by (simp add: file_settled_def)
qed

lemma first_effect_keeps:
  assumes "first_effect ident cfg aid kp rel st t" "no_dict_url (metric_data st)" "kp0 \<noteq> kp"
    and "file_settled ident cfg aid (remote st) (isfile st) (metric_data st) (kp0, rel0)"
  shows "file_settled ident cfg aid (remote t) (isfile t) (metric_data t) (kp0, rel0)"
proof (cases "isfile st (ROOT cfg @ ''/'' @ rel0)")
  case False
  then show ?thesis using assms(1) by (simp add: first_effect_def file_settled_def)
next
  case True
  with assms(4) obtain j where h: "held ident cfg (remote st) aid rel0 = Some j"
    and so: "slot_ok (metric_data st) kp0 j"
    by (auto simp: file_settled_def split: option.splits)
  have h': "held ident cfg (remote t) aid rel0 = Some j"
    using assms(1) h unfolding first_effect_def by blast
  have isf: "isfile t = isfile st" using assms(1) by (simp add: first_effect_def)
  from assms(1) consider
    (same) "metric_data t = metric_data st"
    | (set) i where "set_at (slot_parts kp) (slot_last kp) (YStr (spec_url i)) (metric_data st)
                       = Inr (metric_data t)"
    unfolding first_effect_def by blast
  then have "slot_ok (metric_data t) kp0 j"
  proof cases
    case same
    then show ?thesis using so by simp
  next
    case (set i)
    show ?thesis
    proof (cases "map_of (metric_data st) (kp0 @ ''_url'') \<noteq> None")
      case True
      from set_at_keeps_keys[OF set True] show ?thesis by (simp add: slot_ok_alt)
    next
      case False
      then have g: "get_at (slot_parts kp0) (slot_last kp0) (metric_data st) = Some (YStr (spec_url j))"
        using so by (simp add: slot_ok_alt)
      from get_at_set_at_other[OF set assms(2) slot_last_url g slot_distinct[OF assms(3)]]
      show ?thesis by (simp add: slot_ok_alt)
    qed
  qed
  then show ?thesis using h' isf True by (simp add: file_settled_def)
qed

lemma first_frame_refl: "first_frame ident cfg aid st st"
  by (simp add: first_frame_def)

lemma first_frame_trans:
  "first_frame ident cfg aid a b \<Longrightarrow> first_frame ident cfg aid b c \<Longrightarrow> first_frame ident cfg aid a c"
  by (simp add: first_frame_def)

lemma first_effect_frame:
  "first_effect ident cfg aid kp rel st t \<Longrightarrow> first_frame ident cfg aid st t"
  by (simp add: first_effect_def first_frame_def)

lemma file_settled_frame:
  assumes "first_frame ident cfg aid st t"
    "file_settled ident cfg aid (remote st) (isfile st) md kv"
  shows "file_settled ident cfg aid (remote t) (isfile t) md kv"
proof (cases "isfile st (ROOT cfg @ ''/'' @ snd kv)")
  case False
  then show ?thesis using assms(1) by (simp add: first_frame_def file_settled_def)
next
  case True
  with assms(2) obtain j where h: "held ident cfg (remote st) aid (snd kv) = Some j"
    and so: "slot_ok md (fst kv) j"
    by (auto simp: file_settled_def split: option.splits)
  have "held ident cfg (remote t) aid (snd kv) = Some j"
    using assms(1) h unfolding first_frame_def by blast
  then show ?thesis using so by (simp add: file_settled_def)
qed

lemma files_loop_first:
  assumes "for_each (process_file (spec_figshare ids ident) cfg task m False False aid existing) kvs st
            = (t, None)"
    and "no_dict_url (metric_data st)" "distinct (map fst kvs)"
  shows "first_frame ident cfg aid st t \<and> yaml_docs t = yaml_docs st \<and> writes t = writes st
       \<and> no_dict_url (metric_data t)
       \<and> find_file_keys ft (metric_data t) pre = find_file_keys ft (metric_data st) pre
       \<and> list_all (file_settled ident cfg aid (remote t) (isfile t) (metric_data t)) kvs
       \<and> (\<forall>kp0 rel0. kp0 \<notin> fst ` set kvs
            \<longrightarrow> file_settled ident cfg aid (remote st) (isfile st) (metric_data st) (kp0, rel0)
            \<longrightarrow> file_settled ident cfg aid (remote t) (isfile t) (metric_data t) (kp0, rel0))"
  using assms
proof (induction kvs arbitrary: st)
  case Nil
  then show ?case by (simp add: first_frame_refl)
next
  case (Cons kv kvs)
  let ?body = "process_file (spec_figshare ids ident) cfg task m False False aid existing"
  obtain kp rel where kv: "kv = (kp, rel)" by (cases kv)
  obtain u r where b: "?body kv st = (u, r)" by (cases "?body kv st")
  have r: "r = None" using Cons.prems(1) b by (cases r) auto
  have l: "for_each ?body kvs u = (t, None)" using Cons.prems(1) b r by simp
  have fe: "first_effect ident cfg aid kp rel st u"
    using process_file_first_effect b r kv by blast
  note tr = first_effect_tree[OF fe Cons.prems(2)]
  have ndu: "no_dict_url (metric_data u)" using tr by simp
  have dk: "distinct (map fst kvs)" "kp \<notin> fst ` set kvs" using Cons.prems(3) kv by auto
  note ih = Cons.IH[OF l ndu dk(1)]
  have su: "file_settled ident cfg aid (remote u) (isfile u) (metric_data u) (kp, rel)"
    by (rule first_effect_settles[OF fe])
  have st: "file_settled ident cfg aid (remote t) (isfile t) (metric_data t) (kp, rel)"
    using ih dk(2) su by blast
  have keep: "\<forall>kp0 rel0. kp0 \<notin> fst ` set (kv # kvs)
            \<longrightarrow> file_settled ident cfg aid (remote st) (isfile st) (metric_data st) (kp0, rel0)
            \<longrightarrow> file_settled ident cfg aid (remote t) (isfile t) (metric_data t) (kp0, rel0)"
  proof (intro allI impI)
    fix kp0 rel0
    assume n: "kp0 \<notin> fst ` set (kv # kvs)"
      and s: "file_settled ident cfg aid (remote st) (isfile st) (metric_data st) (kp0, rel0)"
    have "kp0 \<noteq> kp" "kp0 \<notin> fst ` set kvs" using n kv by auto
    then show "file_settled ident cfg aid (remote t) (isfile t) (metric_data t) (kp0, rel0)"
      using first_effect_keeps[OF fe Cons.prems(2) _ s] ih by blast
  qed
  have fr: "first_frame ident cfg aid st t"
    using first_frame_trans[OF first_effect_frame[OF fe]] ih by blast
  have docs: "yaml_docs t = yaml_docs st" "writes t = writes st"
    using ih fe by (simp_all add: first_effect_def)
  have walk: "find_file_keys ft (metric_data t) pre = find_file_keys ft (metric_data st) pre"
    using ih tr by simp
  show ?case using fr docs ih walk st keep kv by simp
qed

lemma get_metric_data_dumped:
  assumes "get_metric_data doc task = Inr (YDict md0)" "md0 = [] \<Longrightarrow> md1 = []"
  shows "get_metric_data (dumped_model_data doc task md1) task = Inr (YDict md1)"
proof -
  from assms(1) obtain d where doc: "doc = YDict d"
    by (cases doc) (auto simp: get_metric_data_def)
  show ?thesis
  proof (cases "map_of d ''metrics''")
    case None
    then show ?thesis using assms doc by (auto simp: get_metric_data_def dumped_model_data_def)
  next
    case (Some metrics)
    then obtain ms where ms: "metrics = YDict ms"
      using assms(1) doc by (cases metrics) (auto simp: get_metric_data_def)
    show ?thesis
    proof (cases "map_of ms task")
      case None
      then show ?thesis using assms doc Some ms
        by (auto simp: get_metric_data_def dumped_model_data_def)
    next
      case (Some v)
      then have "v = YDict md0" using assms(1) doc \<open>map_of d ''metrics'' = Some metrics\<close> ms
        by (simp add: get_metric_data_def)
      then show ?thesis using doc Some \<open>map_of d ''metrics'' = Some metrics\<close> ms
        by (simp add: get_metric_data_def dumped_model_data_def AList.update_conv')
    qed
  qed
qed

lemma find_file_keys_Nil [simp]: "find_file_keys ft [] pre = []"
  by (simp add: find_file_keys_def)

lemma process_model_first:
  assumes "process_model (spec_figshare ids ident) cfg task False ft False aid existing m st = (t, None)"
    and "locators_plain task st (yaml_path m)"
  shows "first_frame ident cfg aid st t
       \<and> (\<forall>p. p \<noteq> yaml_path m \<longrightarrow> yaml_docs t p = yaml_docs st p)
       \<and> model_settled ident cfg task aid ft t (yaml_path m)
       \<and> locators_plain task t (yaml_path m)"
  using assms(1)
proof (cases rule: process_model_cases)
  case no_yaml
  then show ?thesis
    by (simp add: first_frame_def print_def model_settled_def locators_plain_def)
next
  case (not_dict v)
  have nd: "\<forall>md. v \<noteq> YDict md" using not_dict(3) by blast
  show ?thesis using not_dict(1,2,4) nd assms(2)
    by (cases v) (simp_all add: first_frame_def model_settled_def)
next
  case (written md s1)
  let ?p = "yaml_path m"
  let ?doc = "yaml_docs st ?p"
  have nd: "no_dict_url md" using assms(2) written(1,3) by (simp add: locators_plain_def)
  have nd0: "no_dict_url (metric_data (st\<lparr>metric_data := md\<rparr>))" using nd by simp
  note fl = files_loop_first[OF written(4) nd0 distinct_find_file_keys, of ft "[]"]
  have fr: "first_frame ident cfg aid st s1" using fl by (simp add: first_frame_def)
  have walk: "find_file_keys ft (metric_data s1) [] = find_file_keys ft md []" using fl by simp
  have empty: "md = [] \<Longrightarrow> metric_data s1 = []" using written(4) by auto
  have g: "get_metric_data (dumped_model_data ?doc task (metric_data s1)) task
      = Inr (YDict (metric_data s1))"
    by (rule get_metric_data_dumped[OF written(3) empty])
  have t: "remote t = remote s1" "isfile t = isfile s1"
    "yaml_docs t ?p = dumped_model_data ?doc task (metric_data s1)"
    "\<And>p. p \<noteq> ?p \<Longrightarrow> yaml_docs t p = yaml_docs s1 p"
    using written(5) by simp_all
  have isf: "isfile t ?p" using t(2) fr written(1) by (simp add: first_frame_def)
  have ts: "tree_settled ident cfg aid ft (remote t) (isfile t) (metric_data s1)"
    unfolding tree_settled_def t(1,2) walk using fl by simp
  have "model_settled ident cfg task aid ft t ?p"
    unfolding model_settled_def using isf g t(3) ts by simp
  moreover have "locators_plain task t ?p"
    unfolding locators_plain_def using isf g t(3) fl by simp
  moreover have "first_frame ident cfg aid st t"
    using fr t(1,2) by (simp add: first_frame_def)
  moreover have "\<forall>p. p \<noteq> ?p \<longrightarrow> yaml_docs t p = yaml_docs st p"
    using t(4) fl by simp
  ultimately show ?thesis by blast
qed simp_all

lemma tree_settled_frame:
  assumes "first_frame ident cfg aid st t" "tree_settled ident cfg aid ft (remote st) (isfile st) md"
  shows "tree_settled ident cfg aid ft (remote t) (isfile t) md"
  using assms file_settled_frame[OF assms(1)]
  unfolding tree_settled_def list_all_iff by blast

lemma model_settled_frame:
  assumes "first_frame ident cfg aid st t" "yaml_docs t p = yaml_docs st p"
    "model_settled ident cfg task aid ft st p"
  shows "model_settled ident cfg task aid ft t p"
proof -
  have isf: "isfile t = isfile st" using assms(1) by (simp add: first_frame_def)
  show ?thesis
  proof (cases "isfile st p")
    case False
    then show ?thesis using isf by (simp add: model_settled_def)
  next
    case True
    show ?thesis
    proof (cases "get_metric_data (yaml_docs st p) task")
      case (Inl e)
      then show ?thesis using assms(3) True by (simp add: model_settled_def)
    next
      case (Inr v)
      show ?thesis
      proof (cases v)
        case (YDict md)
        then have "tree_settled ident cfg aid ft (remote st) (isfile st) md"
          using assms(3) True Inr by (simp add: model_settled_def)
        from tree_settled_frame[OF assms(1) this] show ?thesis
          using True Inr YDict isf assms(2) by (simp add: model_settled_def)
      qed (use True Inr isf assms(2) in \<open>simp_all add: model_settled_def\<close>)
    qed
  qed
qed

lemma locators_plain_frame:
  "isfile t = isfile st \<Longrightarrow> yaml_docs t p = yaml_docs st p
     \<Longrightarrow> locators_plain task t p = locators_plain task st p"
  by (simp add: locators_plain_def)

lemma models_loop_first:
  assumes "for_each (process_model (spec_figshare ids ident) cfg task False ft False aid existing) ms st
            = (t, None)"
    and "list_all (\<lambda>m. locators_plain task st (yaml_path m)) ms"
  shows "first_frame ident cfg aid st t
       \<and> list_all (\<lambda>m. model_settled ident cfg task aid ft t (yaml_path m)) ms
       \<and> (\<forall>p. model_settled ident cfg task aid ft st p \<longrightarrow> model_settled ident cfg task aid ft t p)"
  using assms
proof (induction ms arbitrary: st)
  case Nil
  then show ?case by (simp add: first_frame_refl)
next
  case (Cons m ms)
  let ?body = "process_model (spec_figshare ids ident) cfg task False ft False aid existing"
  obtain u r where b: "?body m st = (u, r)" by (cases "?body m st")
  have r: "r = None" using Cons.prems(1) b by (cases r) auto
  have l: "for_each ?body ms u = (t, None)" using Cons.prems(1) b r by simp
  have lp: "locators_plain task st (yaml_path m)" using Cons.prems(2) by simp
  note pm = process_model_first[OF b[unfolded r] lp]
  have isf: "isfile u = isfile st" using pm by (simp add: first_frame_def)
  have lpu: "locators_plain task u p" if "locators_plain task st p" for p
  proof (cases "p = yaml_path m")
    case True
    then show ?thesis using pm by simp
  next
    case False
    then have "yaml_docs u p = yaml_docs st p" using pm by simp
    from locators_plain_frame[OF isf this] that show ?thesis by simp
  qed
  have msu: "model_settled ident cfg task aid ft u p" if "model_settled ident cfg task aid ft st p" for p
  proof (cases "p = yaml_path m")
    case True
    then show ?thesis using pm by simp
  next
    case False
    then have "yaml_docs u p = yaml_docs st p" using pm by simp
    from model_settled_frame[OF _ this that] pm show ?thesis by blast
  qed
  have "list_all (\<lambda>m. locators_plain task u (yaml_path m)) ms"
    using Cons.prems(2) lpu by (simp add: list_all_iff)
  note ih = Cons.IH[OF l this]
  have "first_frame ident cfg aid st t" using first_frame_trans pm ih by blast
  moreover have "model_settled ident cfg task aid ft t (yaml_path m)" using pm ih by blast
  moreover have "\<forall>p. model_settled ident cfg task aid ft st p \<longrightarrow> model_settled ident cfg task aid ft t p"
    using msu ih by blast
  ultimately show ?case using ih by simp
qed

lemma resolve_article_registered:
  assumes "map_of ids (''model_preds_'' @ task) = Some (Some aid)"
    "map_of (articles (remote st)) aid \<noteq> None"
  shows "resolve_article (spec_figshare ids ident) cfg task dry st
     = (print (FoundExistingArticle task aid) (called (ArticleExists aid) st), Inr aid)"
  using assms by (auto simp: resolve_article_def spec_article_exists_def)

lemma update_one_run:
  assumes "resolve_article fg cfg task dry st = (st1, Inr aid)"
    "get_existing_files fg (remote st1) aid = Inr existing"
    "for_each (process_model fg cfg task dry ft force aid existing) ms
       (models_start fg dry aid existing st1) = (s7, None)"
  shows "update_one_modeling_task_article fg cfg task ms dry ft force st = (print_summary s7, None)"
proof -
  have rem: "remote (called c (if dry then print DryRunNotice (print x st1) else print x st1)) = remote st1" for c x
    by (simp add: called_def print_def)
  show ?thesis using assms
    by (simp add: update_one_modeling_task_article_def Let_def rem models_start_def)
qed

lemma model_settled_same:
  assumes "remote s = remote st" "isfile s = isfile st" "yaml_docs s = yaml_docs st"
  shows "model_settled ident cfg task aid ft s p = model_settled ident cfg task aid ft st p"
  unfolding model_settled_def assms by (rule refl)

lemma discovered_same:
  assumes "isfile s = isfile st" "yaml_docs s = yaml_docs st"
  shows "discovered cfg task ft s p = discovered cfg task ft st p"
  unfolding discovered_def assms by (rule refl)

lemma locators_plain_same:
  assumes "isfile s = isfile st" "yaml_docs s = yaml_docs st"
  shows "locators_plain task s p = locators_plain task st p"
  unfolding locators_plain_def assms by (rule refl)

lemma listing_there:
  "map_of (articles r) aid \<noteq> None \<Longrightarrow> \<exists>existing. spec_get_existing_files r aid = Inr existing"
  by (auto simp: spec_get_existing_files_def)

text \<open>
  C3. On the remote of the specification, when the article of the task is registered
  and exists, no key ending in \<^verbatim>\<open>_url\<close> holds a mapping in the trees of the models,
  and a first real run without force completes: a second such run completes too, leaves
  the remote and the metadata documents as the first run left them, records nothing in
  \<^verbatim>\<open>updated_files\<close> and \<^verbatim>\<open>new_files\<close>, and the keys of \<^verbatim>\<open>skipped_files\<close> are the
  discovered artifacts of the models.
\<close>

theorem second_run_skips_everything:
  assumes "map_of ids (''model_preds_'' @ task) = Some (Some article_id)"
    and "map_of (articles (remote st)) article_id \<noteq> None"
    and "list_all (\<lambda>m. locators_plain task st (yaml_path m)) ms"
    and "update_one_modeling_task_article (spec_figshare ids ident) cfg task ms False file_type False st
           = (s1, None)"
  shows "\<exists>s2. update_one_modeling_task_article (spec_figshare ids ident) cfg task ms False file_type False s1
               = (s2, None)
           \<and> remote s2 = remote s1 \<and> yaml_docs s2 = yaml_docs s1
           \<and> updated_files s2 = [] \<and> new_files s2 = []
           \<and> keys (skipped_files s2) = (\<Union>m\<in>set ms. discovered cfg task file_type s1 (yaml_path m))"
proof -
  let ?fg = "spec_figshare ids ident"
  let ?st1 = "print (FoundExistingArticle task article_id) (called (ArticleExists article_id) st)"
  from assms(4) obtain st1 aid existing s7 where
    ra: "resolve_article ?fg cfg task False st = (st1, Inr aid)"
    and l: "for_each (process_model ?fg cfg task False file_type False aid existing) ms
       (models_start ?fg False aid existing st1) = (s7, None)"
    and s1: "s1 = print_summary s7"
    by (rule update_one_completes)
  have st1: "st1 = ?st1" and aid: "aid = article_id"
    using ra resolve_article_registered[OF assms(1,2), of ident cfg False] by auto
  let ?m0 = "models_start ?fg False article_id existing ?st1"
  have m0: "remote ?m0 = remote st" "isfile ?m0 = isfile st" "yaml_docs ?m0 = yaml_docs st"
    by (simp_all add: print_def called_def)
  have "list_all (\<lambda>m. locators_plain task ?m0 (yaml_path m)) ms"
    using assms(3) locators_plain_same[OF m0(2,3)] by simp
  from models_loop_first[OF l[unfolded st1 aid] this]
  have fr: "first_frame ident cfg article_id ?m0 s7"
    and ms7: "list_all (\<lambda>m. model_settled ident cfg task article_id file_type s7 (yaml_path m)) ms"
    by blast+
  have there: "map_of (articles (remote s1)) article_id \<noteq> None"
    using fr assms(2) m0(1) s1 by (simp add: first_frame_def)
  let ?st1' = "print (FoundExistingArticle task article_id) (called (ArticleExists article_id) s1)"
  have ra2: "resolve_article ?fg cfg task False s1 = (?st1', Inr article_id)"
    by (rule resolve_article_registered[OF assms(1) there])
  have r1': "remote ?st1' = remote s1" by (simp add: print_def called_def)
  obtain existing2 where ex2: "get_existing_files ?fg (remote ?st1') article_id = Inr existing2"
    using listing_there[OF there] r1' by auto
  let ?m1 = "models_start ?fg False article_id existing2 ?st1'"
  have m1: "remote ?m1 = remote s1" "isfile ?m1 = isfile s1" "yaml_docs ?m1 = yaml_docs s1"
    by (simp_all add: print_def called_def)
  have m17: "remote ?m1 = remote s7" "isfile ?m1 = isfile s7" "yaml_docs ?m1 = yaml_docs s7"
    using m1 s1 by simp_all
  have "list_all (\<lambda>m. model_settled ident cfg task article_id file_type ?m1 (yaml_path m)) ms"
    using ms7 model_settled_same[OF m17] by simp
  from models_loop_settled[OF this, where ids=ids and existing=existing2] obtain s' where
    l2: "for_each (process_model ?fg cfg task False file_type False article_id existing2) ms ?m1
           = (s', None)"
    and q: "quiet ?m1 s'"
    and k: "keys (skipped_files s')
              = keys (skipped_files ?m1) \<union> (\<Union>m\<in>set ms. discovered cfg task file_type ?m1 (yaml_path m))"
    by blast
  have run2: "update_one_modeling_task_article ?fg cfg task ms False file_type False s1
      = (print_summary s', None)"
    by (rule update_one_run[OF ra2 ex2 l2])
  have "remote (print_summary s') = remote s1" "yaml_docs (print_summary s') = yaml_docs s1"
    "updated_files (print_summary s') = []" "new_files (print_summary s') = []"
    using q m1 by (simp_all add: quiet_def)
  moreover have "keys (skipped_files (print_summary s'))
      = (\<Union>m\<in>set ms. discovered cfg task file_type s1 (yaml_path m))"
    using k discovered_same[OF m1(2,3)] by simp
  ultimately show ?thesis using run2 by blast
qed

text \<open>
  When the catalogue has no article id for the task, every real run creates an article:
  the second run uploads the file again, to a second article, records it in
  \<^verbatim>\<open>new_files\<close> and rewrites the locator.
\<close>

theorem unregistered_article_second_run_uploads:
  "(let fg = spec_figshare [(''model_preds_discovery'', None)] example_identity;
        st = example_state [] (example_doc [(''energy_pred_file'', YStr ''a/b.csv'')]);
        run1 = update_one_modeling_task_article fg example_config ''discovery'' [example_model]
                 False ''all'' False st;
        run2 = update_one_modeling_task_article fg example_config ''discovery'' [example_model]
                 False ''all'' False (fst run1)
    in snd run1 = None \<and> snd run2 = None
       \<and> skipped_files (fst run2) = []
       \<and> new_files (fst run2) = [(''a/b.csv'', ''download-prefix/126'')]
       \<and> articles (remote (fst run1))
           = [(7, []), (123, [(''a/b.csv'', 124, ''sha-of:/repo/a/b.csv'')])]
       \<and> articles (remote (fst run2))
           = [(7, []), (123, [(''a/b.csv'', 124, ''sha-of:/repo/a/b.csv'')]),
              (125, [(''a/b.csv'', 126, ''sha-of:/repo/a/b.csv'')])]
       \<and> yaml_docs (fst run1) ''models/m1.yml''
           = example_doc [(''energy_pred_file'', YStr ''a/b.csv''),
                          (''energy_pred_file_url'', YStr ''download-prefix/124'')]
       \<and> yaml_docs (fst run2) ''models/m1.yml''
           = example_doc [(''energy_pred_file'', YStr ''a/b.csv''),
                          (''energy_pred_file_url'', YStr ''download-prefix/126'')])"
  by (simp add: run_defs spec_defs example_defs str_nat.simps get_article_metadata_def)

text \<open>
  The statement about a second run, at a model with a prediction file at the top of its
  tree and an analysis file one level down.
\<close>

theorem second_run_skips_everything_witness:
  "\<exists>s2. update_one_modeling_task_article example_figshare example_config ''discovery''
           [example_model] False ''all'' False
           (fst (update_one_modeling_task_article example_figshare example_config ''discovery''
                   [example_model] False ''all'' False
                   (example_state []
                      (example_doc [(''energy_pred_file'', YStr ''a/b.csv''),
                                    (''geo'', YDict [(''rmsd_analysis_file'', YStr ''a/c.csv'')])]))))
         = (s2, None)
       \<and> remote s2 = \<lparr> articles = [(7, [(''a/b.csv'', 123, ''sha-of:/repo/a/b.csv''),
                                          (''a/c.csv'', 124, ''sha-of:/repo/a/c.csv'')])],
                        next_id = 125 \<rparr>
       \<and> yaml_docs s2 ''models/m1.yml''
           = example_doc [(''energy_pred_file'', YStr ''a/b.csv''),
                          (''geo'', YDict [(''rmsd_analysis_file'', YStr ''a/c.csv''),
                                          (''rmsd_analysis_file_url'', YStr ''download-prefix/124'')]),
                          (''energy_pred_file_url'', YStr ''download-prefix/123'')]
       \<and> updated_files s2 = [] \<and> new_files s2 = []
       \<and> keys (skipped_files s2) = {''a/b.csv'', ''a/c.csv''}"
proof -
  let ?st = "example_state []
                      (example_doc [(''energy_pred_file'', YStr ''a/b.csv''),
                                    (''geo'', YDict [(''rmsd_analysis_file'', YStr ''a/c.csv'')])])"
  let ?run1 = "update_one_modeling_task_article example_figshare example_config ''discovery''
                   [example_model] False ''all'' False ?st"
  have h1: "map_of [(''model_preds_discovery'', Some (7::nat))] (''model_preds_'' @ ''discovery'')
      = Some (Some 7)" by simp
  have h2: "map_of (articles (remote ?st)) 7 \<noteq> None" by (simp add: example_state_def)
  have h3: "list_all (\<lambda>m. locators_plain ''discovery'' ?st (yaml_path m)) [example_model]"
    by (simp add: locators_plain_def example_defs get_metric_data_def endswith_def)
  have ev: "snd ?run1 = None"
    "remote (fst ?run1) = \<lparr> articles = [(7, [(''a/b.csv'', 123, ''sha-of:/repo/a/b.csv''),
                                          (''a/c.csv'', 124, ''sha-of:/repo/a/c.csv'')])],
                        next_id = 125 \<rparr>"
    "yaml_docs (fst ?run1) ''models/m1.yml''
           = example_doc [(''energy_pred_file'', YStr ''a/b.csv''),
                          (''geo'', YDict [(''rmsd_analysis_file'', YStr ''a/c.csv''),
                                          (''rmsd_analysis_file_url'', YStr ''download-prefix/124'')]),
                          (''energy_pred_file_url'', YStr ''download-prefix/123'')]"
    "isfile (fst ?run1) = isfile ?st"
    by (simp_all add: run_defs spec_defs example_defs str_nat.simps)
  have h4: "update_one_modeling_task_article
      (spec_figshare [(''model_preds_discovery'', Some 7)] example_identity) example_config
      ''discovery'' [example_model] False ''all'' False ?st = (fst ?run1, None)"
    using ev(1) unfolding example_figshare_def by (metis prod.collapse)
  have g: "get_metric_data (yaml_docs (fst ?run1) ''models/m1.yml'') ''discovery''
      = Inr (YDict [(''energy_pred_file'', YStr ''a/b.csv''),
                    (''geo'', YDict [(''rmsd_analysis_file'', YStr ''a/c.csv''),
                                    (''rmsd_analysis_file_url'', YStr ''download-prefix/124'')]),
                    (''energy_pred_file_url'', YStr ''download-prefix/123'')])"
    unfolding ev(3) by (simp add: example_doc_def get_metric_data_def)
  have "discovered example_config ''discovery'' ''all'' (fst ?run1) ''models/m1.yml''
      = {''a/b.csv'', ''a/c.csv''}"
    unfolding discovered_def ev(4) g
    by (simp add: example_state_def example_config_def find_file_keys_def endswith_def
        should_process_file_def full_key_of_def dict_ior_def)
  then have d: "(\<Union>m\<in>set [example_model].
        discovered example_config ''discovery'' ''all'' (fst ?run1) (yaml_path m))
      = {''a/b.csv'', ''a/c.csv''}"
    by (simp add: example_model_def)
  from second_run_skips_everything[OF h1 h2 h3 h4] obtain s2 where
    r2: "update_one_modeling_task_article
           (spec_figshare [(''model_preds_discovery'', Some 7)] example_identity) example_config
           ''discovery'' [example_model] False ''all'' False (fst ?run1) = (s2, None)"
    and e2: "remote s2 = remote (fst ?run1)" "yaml_docs s2 = yaml_docs (fst ?run1)"
      "updated_files s2 = []" "new_files s2 = []"
    and k2: "keys (skipped_files s2)
      = (\<Union>m\<in>set [example_model].
           discovered example_config ''discovery'' ''all'' (fst ?run1) (yaml_path m))"
    by blast
  have "remote s2 = \<lparr> articles = [(7, [(''a/b.csv'', 123, ''sha-of:/repo/a/b.csv''),
                                          (''a/c.csv'', 124, ''sha-of:/repo/a/c.csv'')])],
                        next_id = 125 \<rparr>"
    using e2(1) ev(2) by (rule trans)
  moreover have "yaml_docs s2 ''models/m1.yml''
           = example_doc [(''energy_pred_file'', YStr ''a/b.csv''),
                          (''geo'', YDict [(''rmsd_analysis_file'', YStr ''a/c.csv''),
                                          (''rmsd_analysis_file_url'', YStr ''download-prefix/124'')]),
                          (''energy_pred_file_url'', YStr ''download-prefix/123'')]"
    unfolding e2(2) by (rule ev(3))
  moreover have "keys (skipped_files s2) = {''a/b.csv'', ''a/c.csv''}"
    using k2 d by (rule trans)
  ultimately show ?thesis
    using r2[folded example_figshare_def] e2(3,4) by blast
qed

text \<open>
  Why the trees are asked to hold no mapping under a key ending in \<^verbatim>\<open>_url\<close>: here
  the first run completes and replaces the mapping \<^verbatim>\<open>x_file_url\<close> by a locator, and
  the second run raises \<^verbatim>\<open>TypeError\<close> when it descends into it.
\<close>

theorem mapping_under_url_key_second_run_raises:
  "(let st = example_state []
               (example_doc [(''x_file_url.b_file'', YStr ''a/c.csv''),
                             (''x_file_url'', YDict [(''b_file'', YStr ''a/b.csv'')]),
                             (''x_file'', YStr ''a/c.csv'')]);
        run1 = update_one_modeling_task_article example_figshare example_config ''discovery''
                 [example_model] False ''all'' False st;
        run2 = update_one_modeling_task_article example_figshare example_config ''discovery''
                 [example_model] False ''all'' False (fst run1)
    in snd run1 = None \<and> snd run2 = Some TypeError)"
  by (simp add: run_defs spec_defs example_defs str_nat.simps)

end
